theory Spec2Isabelle
  imports Main "HOL-Library.Word"
begin

section \<open>JavaScript strings\<close>

text \<open>
  A JavaScript string is a sequence of UTF-16 code units. \<open>str.length\<close>,
  \<open>split('')\<close>, \<open>includes\<close> and a regular expression without the \<open>u\<close> flag
  all work on code units; \<open>for (const char of str)\<close> and \<open>new Set(str)\<close> iterate
  over code points, where a high surrogate followed by a low surrogate is one element.
\<close>

type_synonym jsstring = "16 word list"

definition js :: "string \<Rightarrow> jsstring" where
  "js s = map of_char s"

text \<open>
  The characters matched by \<open>\s\<close> in a regular expression; \<open>trim\<close> strips the
  same set (WhiteSpace and LineTerminator of ECMAScript).
\<close>

definition isSpace :: "16 word \<Rightarrow> bool" where
  "isSpace c = (c = 0x09 \<or> c = 0x0A \<or> c = 0x0B \<or> c = 0x0C \<or> c = 0x0D \<or> c = 0x20
     \<or> c = 0xA0 \<or> c = 0x1680 \<or> (0x2000 \<le> c \<and> c \<le> 0x200A) \<or> c = 0x2028
     \<or> c = 0x2029 \<or> c = 0x202F \<or> c = 0x205F \<or> c = 0x3000 \<or> c = 0xFEFF)"

definition isDigit :: "16 word \<Rightarrow> bool" where
  "isDigit c = (0x30 \<le> c \<and> c \<le> 0x39)"

definition isLowerLetter :: "16 word \<Rightarrow> bool" where
  "isLowerLetter c = (0x61 \<le> c \<and> c \<le> 0x7A)"

definition isAscii :: "16 word \<Rightarrow> bool" where
  "isAscii c = (c < 0x80)"

definition asciiLower :: "16 word \<Rightarrow> 16 word" where
  "asciiLower c = (if 0x41 \<le> c \<and> c \<le> 0x5A then c + 0x20 else c)"

text \<open>
  \<open>String.prototype.toLowerCase\<close>. On a string whose code units are ASCII or
  whitespace it maps \<open>A\<close>..\<open>Z\<close> to \<open>a\<close>..\<open>z\<close> and leaves the rest: the
  whitespace characters have no case mapping. On any other string the result is given by
  the Unicode case-mapping tables of the runtime, which are not part of the repository:
  they are the parameter \<open>unicodeLower\<close>.
\<close>

definition toLowerCase :: "(jsstring \<Rightarrow> jsstring) \<Rightarrow> jsstring \<Rightarrow> jsstring" where
  "toLowerCase unicodeLower s =
     (if list_all (\<lambda>c. isAscii c \<or> isSpace c) s then map asciiLower s else unicodeLower s)"

text \<open>\<open>str.trim()\<close>\<close>

definition trim :: "jsstring \<Rightarrow> jsstring" where
  "trim s = rev (dropWhile isSpace (rev (dropWhile isSpace s)))"

text \<open>
  \<open>str.split(/\s+/)\<close>: the input is scanned from the left; a maximal run of
  whitespace ends the current piece, and the piece left at the end of the input is
  always emitted, so the empty string gives one empty piece.
\<close>

function splitSpaces :: "jsstring \<Rightarrow> jsstring \<Rightarrow> jsstring list" where
  "splitSpaces cur [] = [cur]"
| "splitSpaces cur (c # cs) =
     (if isSpace c then cur # splitSpaces [] (dropWhile isSpace cs)
      else splitSpaces (cur @ [c]) cs)"
  by pat_completeness auto
termination
  by (relation "measure (\<lambda>(cur, s). length s)")
     (auto simp: length_dropWhile_le less_Suc_eq_le)

text \<open>\<open>haystack.includes(needle)\<close>\<close>

fun startsWith :: "jsstring \<Rightarrow> jsstring \<Rightarrow> bool" where
  "startsWith s [] = True"
| "startsWith [] (t # ts) = False"
| "startsWith (c # cs) (t # ts) = (c = t \<and> startsWith cs ts)"

fun includes_str :: "jsstring \<Rightarrow> jsstring \<Rightarrow> bool" where
  "includes_str [] t = startsWith [] t"
| "includes_str (c # cs) t = (startsWith (c # cs) t \<or> includes_str cs t)"

text \<open>Iteration by code point: the elements produced by the string iterator.\<close>

definition isHighSurrogate :: "16 word \<Rightarrow> bool" where
  "isHighSurrogate c = (0xD800 \<le> c \<and> c \<le> 0xDBFF)"

definition isLowSurrogate :: "16 word \<Rightarrow> bool" where
  "isLowSurrogate c = (0xDC00 \<le> c \<and> c \<le> 0xDFFF)"

fun codePoints :: "jsstring \<Rightarrow> jsstring list" where
  "codePoints [] = []"
| "codePoints [c] = [[c]]"
| "codePoints (c # d # cs) =
     (if isHighSurrogate c \<and> isLowSurrogate d then [c, d] # codePoints cs
      else [c] # codePoints (d # cs))"

section \<open>The analyser (utils/string_analyser)\<close>

text \<open>
  \<open>isPalindrome\<close>: lower-case, delete every whitespace code unit, reverse the code
  units and compare.
\<close>

definition isPalindrome :: "(jsstring \<Rightarrow> jsstring) \<Rightarrow> jsstring \<Rightarrow> bool" where
  "isPalindrome unicodeLower str =
     (let word = filter (\<lambda>c. \<not> isSpace c) (toLowerCase unicodeLower str);
          reversedWord = rev word
      in reversedWord = word)"

text \<open>
  \<open>countCharacterFrequency\<close>: the object \<open>frequency\<close> is a map from the
  one-code-point strings to their counts. A missing key and a count of zero are both
  falsy, so both take the else branch. Counts never exceed the length of a string, which
  is below \<open>2^53\<close>, so \<open>++\<close> is exact.
\<close>

definition tally :: "(jsstring \<rightharpoonup> nat) \<Rightarrow> jsstring \<Rightarrow> (jsstring \<rightharpoonup> nat)" where
  "tally frequency char =
     (case frequency char of
        Some n \<Rightarrow> if n \<noteq> 0 then frequency(char \<mapsto> n + 1) else frequency(char \<mapsto> 1)
      | None \<Rightarrow> frequency(char \<mapsto> 1))"

fun tallyAll :: "(jsstring \<rightharpoonup> nat) \<Rightarrow> jsstring list \<Rightarrow> (jsstring \<rightharpoonup> nat)" where
  "tallyAll frequency [] = frequency"
| "tallyAll frequency (char # rest) = tallyAll (tally frequency char) rest"

definition countCharacterFrequency :: "jsstring \<Rightarrow> (jsstring \<rightharpoonup> nat)" where
  "countCharacterFrequency str = tallyAll Map.empty (codePoints str)"

record properties =
  length_f :: nat
  is_palindrome :: bool
  unique_characters :: nat
  word_count :: nat
  sha256_hash :: jsstring
  character_frequency :: "jsstring \<rightharpoonup> nat"

text \<open>
  \<open>analyseString\<close>. The SHA-256 digest comes from the \<open>crypto\<close> module of the
  runtime and is the parameter \<open>sha256\<close>; nothing below depends on which function
  it is.
\<close>

definition analyseString ::
  "(jsstring \<Rightarrow> jsstring) \<Rightarrow> (jsstring \<Rightarrow> jsstring) \<Rightarrow> jsstring \<Rightarrow> properties" where
  "analyseString sha256 unicodeLower str =
     \<lparr> length_f = length str,
       is_palindrome = isPalindrome unicodeLower str,
       unique_characters = card (set (codePoints str)),
       word_count = length (splitSpaces [] (trim str)),
       sha256_hash = sha256 str,
       character_frequency = countCharacterFrequency str \<rparr>"

section \<open>Numbers\<close>

text \<open>
  A JavaScript number is an IEEE-754 double. The numbers of this program are integers,
  infinities or NaN (from \<open>parseInt\<close>, \<open>+ 1\<close> and \<open>- 1\<close>), so a finite number
  is kept as the integer it denotes; the sign of zero is not observable here.
  \<open>toNumber\<close> is the Number value of a mathematical integer: exact below \<open>2^53\<close>,
  otherwise rounded to 53 significant bits, ties to even, and infinite from \<open>2^1024\<close> on.
\<close>

datatype jsnum = NaN | Num int | PosInf | NegInf

fun bitLength :: "nat \<Rightarrow> nat" where
  "bitLength n = (if n = 0 then 0 else Suc (bitLength (n div 2)))"

declare bitLength.simps [simp del]

definition roundMagnitude :: "nat \<Rightarrow> nat" where
  "roundMagnitude n =
     (if n < 2 ^ 53 then n
      else let e = bitLength n - 53;
               q = n div 2 ^ e;
               m = n mod 2 ^ e;
               half = 2 ^ (e - 1)
           in (if m < half \<or> (m = half \<and> even q) then q else q + 1) * 2 ^ e)"

definition toNumber :: "int \<Rightarrow> jsnum" where
  "toNumber i =
     (let r = roundMagnitude (nat \<bar>i\<bar>)
      in if 2 ^ 1024 \<le> r then (if i < 0 then NegInf else PosInf)
         else Num (if i < 0 then - int r else int r))"

text \<open>\<open>a + b\<close> on numbers: the exact sum, rounded.\<close>

fun numAdd :: "jsnum \<Rightarrow> jsnum \<Rightarrow> jsnum" where
  "numAdd (Num a) (Num b) = toNumber (a + b)"
| "numAdd NaN y = NaN"
| "numAdd x NaN = NaN"
| "numAdd PosInf NegInf = NaN"
| "numAdd NegInf PosInf = NaN"
| "numAdd PosInf y = PosInf"
| "numAdd NegInf y = NegInf"
| "numAdd x PosInf = PosInf"
| "numAdd x NegInf = NegInf"

fun numNeg :: "jsnum \<Rightarrow> jsnum" where
  "numNeg (Num a) = Num (- a)"
| "numNeg NaN = NaN"
| "numNeg PosInf = NegInf"
| "numNeg NegInf = PosInf"

definition numSub :: "jsnum \<Rightarrow> jsnum \<Rightarrow> jsnum" where
  "numSub x y = numAdd x (numNeg y)"

definition isNaN :: "jsnum \<Rightarrow> bool" where
  "isNaN x = (x = NaN)"

text \<open>
  Comparisons of a stored length or word count (a natural number) with a number:
  \<open>l >= x\<close>, \<open>l <= x\<close> and \<open>l === x\<close>.
\<close>

fun geNum :: "nat \<Rightarrow> jsnum \<Rightarrow> bool" where
  "geNum l (Num k) = (k \<le> int l)"
| "geNum l NaN = False"
| "geNum l PosInf = False"
| "geNum l NegInf = True"

fun leNum :: "nat \<Rightarrow> jsnum \<Rightarrow> bool" where
  "leNum l (Num k) = (int l \<le> k)"
| "leNum l NaN = False"
| "leNum l PosInf = True"
| "leNum l NegInf = False"

fun eqNum :: "nat \<Rightarrow> jsnum \<Rightarrow> bool" where
  "eqNum l (Num k) = (int l = k)"
| "eqNum l NaN = False"
| "eqNum l PosInf = False"
| "eqNum l NegInf = False"

text \<open>
  \<open>parseInt(string)\<close> without a radix: skip leading whitespace, take a sign, take
  \<open>0x\<close> or \<open>0X\<close> as the mark of radix 16, read the longest run of digits of the
  radix, and give NaN when that run is empty.
\<close>

definition isRadixDigit :: "nat \<Rightarrow> 16 word \<Rightarrow> bool" where
  "isRadixDigit radix c =
     (isDigit c \<or> (radix = 16 \<and> ((0x61 \<le> c \<and> c \<le> 0x66) \<or> (0x41 \<le> c \<and> c \<le> 0x46))))"

definition digitValue :: "16 word \<Rightarrow> nat" where
  "digitValue c =
     (if isDigit c then unat c - 0x30
      else if 0x61 \<le> c \<and> c \<le> 0x66 then unat c - 0x61 + 10
      else unat c - 0x41 + 10)"

definition radixValue :: "nat \<Rightarrow> jsstring \<Rightarrow> nat" where
  "radixValue radix z = foldl (\<lambda>a d. a * radix + digitValue d) 0 z"

definition parseInt :: "jsstring \<Rightarrow> jsnum" where
  "parseInt string =
     (let s1 = dropWhile isSpace string;
          negative = (s1 \<noteq> [] \<and> hd s1 = 0x2D);
          s2 = (if s1 \<noteq> [] \<and> (hd s1 = 0x2B \<or> hd s1 = 0x2D) then tl s1 else s1);
          hex = (startsWith s2 [0x30, 0x78] \<or> startsWith s2 [0x30, 0x58]);
          radix = (if hex then 16 else 10);
          s3 = (if hex then drop 2 s2 else s2);
          z = takeWhile (isRadixDigit radix) s3
      in if z = [] then NaN
         else if negative then toNumber (- int (radixValue radix z))
         else toNumber (int (radixValue radix z)))"

text \<open>\<open>parseInt\<close> of a value that may be \<open>undefined\<close>, which is first turned into the
  string \<open>undefined\<close>.\<close>

definition parseIntArg :: "jsstring option \<Rightarrow> jsnum" where
  "parseIntArg a = (case a of None \<Rightarrow> parseInt (js ''undefined'') | Some s \<Rightarrow> parseInt s)"

text \<open>\<open>a || b\<close> on values that are a string or \<open>undefined\<close>: the empty string is
  falsy.\<close>

definition orElse :: "jsstring option \<Rightarrow> jsstring option \<Rightarrow> jsstring option" where
  "orElse a b = (case a of Some (c # cs) \<Rightarrow> Some (c # cs) | _ \<Rightarrow> b)"

section \<open>Regular expressions\<close>

text \<open>
  The fragment of regular expressions the translator uses, with the backtracking
  semantics of \<open>String.prototype.match\<close> for a pattern without flags. \<open>run r st\<close>
  lists every way \<open>r\<close> can match at the front of the remaining input, in the order
  in which backtracking tries them: the left alternative first, an optional part taken
  before it is skipped, a \<open>+\<close> as long as possible first. A state is the captures so far
  and the remaining input. \<open>+\<close> occurs in the source on character classes only.
\<close>

datatype rx =
    Str jsstring
  | Cls "16 word \<Rightarrow> bool"
  | PlusCls "16 word \<Rightarrow> bool"
  | Seq rx rx
  | Alt rx rx
  | Opt rx
  | Cap nat rx
  | Eol
  | Eps

type_synonym captures = "(nat \<times> jsstring) list"

fun run :: "rx \<Rightarrow> captures \<times> jsstring \<Rightarrow> (captures \<times> jsstring) list" where
  "run (Str t) (caps, s) = (if startsWith s t then [(caps, drop (length t) s)] else [])"
| "run (Cls p) (caps, s) =
     (case s of [] \<Rightarrow> [] | c # cs \<Rightarrow> if p c then [(caps, cs)] else [])"
| "run (PlusCls p) (caps, s) =
     map (\<lambda>k. (caps, drop k s)) (rev [1..<Suc (length (takeWhile p s))])"
| "run (Seq a b) st = concat (map (run b) (run a st))"
| "run (Alt a b) st = run a st @ run b st"
| "run (Opt a) st = run a st @ [st]"
| "run (Cap i a) (caps, s) =
     map (\<lambda>(caps', rest). ((i, take (length s - length rest) s) # caps', rest)) (run a (caps, s))"
| "run Eol (caps, s) = (if s = [] then [(caps, s)] else [])"
| "run Eps st = [st]"

fun seqs :: "rx list \<Rightarrow> rx" where
  "seqs [] = Eps"
| "seqs (r # rs) = Seq r (seqs rs)"

text \<open>
  \<open>str.match(regexp)\<close>: the first position, from the left and up to the end of the
  input, where the pattern matches; the result is the captures of the first way found
  there, or \<open>None\<close> for \<open>null\<close>.
\<close>

fun match_rx :: "rx \<Rightarrow> jsstring \<Rightarrow> captures option" where
  "match_rx r [] = (case run r ([], []) of [] \<Rightarrow> None | st # _ \<Rightarrow> Some (fst st))"
| "match_rx r (c # cs) =
     (case run r ([], c # cs) of [] \<Rightarrow> match_rx r cs | st # _ \<Rightarrow> Some (fst st))"

definition group :: "captures \<Rightarrow> nat \<Rightarrow> jsstring option" where
  "group caps i = map_of caps i"

section \<open>The store (data/store.js)\<close>

record stringData =
  id_f :: jsstring
  value_f :: jsstring
  properties :: properties
  created_at :: jsstring

text \<open>
  \<open>stringStore\<close> is a \<open>Map\<close>: its entries in insertion order, one per key.
  \<open>set\<close> on a key that is present replaces the value in place, \<open>set\<close> on a new
  key appends, \<open>delete\<close> reports whether the key was present.
\<close>

type_synonym stringStore = "(jsstring \<times> stringData) list"

definition mapHas :: "stringStore \<Rightarrow> jsstring \<Rightarrow> bool" where
  "mapHas m k = (k \<in> set (map fst m))"

fun mapSet :: "stringStore \<Rightarrow> jsstring \<Rightarrow> stringData \<Rightarrow> stringStore" where
  "mapSet [] k v = [(k, v)]"
| "mapSet ((k', v') # m) k v = (if k' = k then (k, v) # m else (k', v') # mapSet m k v)"

definition mapDelete :: "stringStore \<Rightarrow> jsstring \<Rightarrow> stringStore \<times> bool" where
  "mapDelete m k = (filter (\<lambda>e. fst e \<noteq> k) m, mapHas m k)"

text \<open>The \<open>Error\<close> thrown by \<open>addString\<close>, with its \<open>statusCode\<close>.\<close>

record js_error =
  message :: string
  statusCode :: nat

text \<open>
  \<open>addString\<close>: the store after the call and either the error thrown or the record
  returned. \<open>now\<close> is the value of \<open>new Date().toISOString()\<close> at the call.
\<close>

definition addString ::
  "stringStore \<Rightarrow> jsstring \<Rightarrow> properties \<Rightarrow> jsstring \<Rightarrow> stringStore \<times> (js_error + stringData)" where
  "addString stringStore val props now =
     (let ident = sha256_hash props
      in if mapHas stringStore ident
         then (stringStore,
               Inl \<lparr> message = ''Error: This string already exist'', statusCode = 409 \<rparr>)
         else (let stringData = \<lparr> id_f = ident, value_f = val, properties = props,
                                  created_at = now \<rparr>
               in (mapSet stringStore ident stringData, Inr stringData)))"

fun getStringByValue :: "stringStore \<Rightarrow> jsstring \<Rightarrow> stringData option" where
  "getStringByValue [] val = None"
| "getStringByValue ((ident, stringData) # entries) val =
     (if value_f stringData = val then Some stringData else getStringByValue entries val)"

definition getAllString :: "stringStore \<Rightarrow> stringData list" where
  "getAllString stringStore = map snd stringStore"

text \<open>
  \<open>deleteStringByValue\<close>: the loop runs over the entries; at the first entry with the
  value it deletes that entry's key from the whole store and returns.
\<close>

fun deleteLoop :: "stringStore \<Rightarrow> stringStore \<Rightarrow> jsstring \<Rightarrow> stringStore \<times> bool" where
  "deleteLoop stringStore [] val = (stringStore, False)"
| "deleteLoop stringStore ((ident, stringData) # entries) val =
     (if value_f stringData = val then mapDelete stringStore ident
      else deleteLoop stringStore entries val)"

definition deleteStringByValue :: "stringStore \<Rightarrow> jsstring \<Rightarrow> stringStore \<times> bool" where
  "deleteStringByValue stringStore val = deleteLoop stringStore stringStore val"

definition getCount :: "stringStore \<Rightarrow> nat" where
  "getCount stringStore = length stringStore"

definition clearAll :: "stringStore \<Rightarrow> stringStore" where
  "clearAll stringStore = []"

section \<open>The translator (routes/strings.js, parseNaturalLanguageQuery)\<close>

record filters =
  flt_is_palindrome :: "bool option"
  flt_min_length :: "jsnum option"
  flt_max_length :: "jsnum option"
  flt_word_count :: "jsnum option"
  flt_contains_character :: "jsstring option"

definition noFilters :: filters where
  "noFilters = \<lparr> flt_is_palindrome = None, flt_min_length = None, flt_max_length = None,
                 flt_word_count = None, flt_contains_character = None \<rparr>"

text \<open>\<open>Object.keys(filters).length\<close>\<close>

definition keyCount :: "filters \<Rightarrow> nat" where
  "keyCount f =
     (if flt_is_palindrome f = None then 0 else 1) + (if flt_min_length f = None then 0 else 1)
     + (if flt_max_length f = None then 0 else 1) + (if flt_word_count f = None then 0 else 1)
     + (if flt_contains_character f = None then 0 else 1)"

text \<open>\<open>/longer than (\d+)|more than (\d+) character/\<close>\<close>

definition longerThanRx :: rx where
  "longerThanRx =
     Alt (seqs [Str (js ''longer than ''), Cap 1 (PlusCls isDigit)])
         (seqs [Str (js ''more than ''), Cap 2 (PlusCls isDigit), Str (js '' character'')])"

text \<open>\<open>/shorter than (\d+)|less than (\d+) character/\<close>\<close>

definition shorterThanRx :: rx where
  "shorterThanRx =
     Alt (seqs [Str (js ''shorter than ''), Cap 1 (PlusCls isDigit)])
         (seqs [Str (js ''less than ''), Cap 2 (PlusCls isDigit), Str (js '' character'')])"

text \<open>\<open>/at least (\d+) character/\<close>\<close>

definition atLeastRx :: rx where
  "atLeastRx = seqs [Str (js ''at least ''), Cap 1 (PlusCls isDigit), Str (js '' character'')]"

text \<open>\<open>/contain(?:ing|s)?\s+(?:the\s+)?letter\s+([a-z])|with\s+(?:the\s+)?letter\s+([a-z])/\<close>\<close>

definition letterRx :: rx where
  "letterRx =
     Alt (seqs [Str (js ''contain''), Opt (Alt (Str (js ''ing'')) (Str (js ''s''))),
                PlusCls isSpace, Opt (seqs [Str (js ''the''), PlusCls isSpace]),
                Str (js ''letter''), PlusCls isSpace, Cap 1 (Cls isLowerLetter)])
         (seqs [Str (js ''with''), PlusCls isSpace,
                Opt (seqs [Str (js ''the''), PlusCls isSpace]),
                Str (js ''letter''), PlusCls isSpace, Cap 2 (Cls isLowerLetter)])"

text \<open>\<open>/contain(?:ing|s)?\s+([a-z])$/\<close>\<close>

definition containsRx :: rx where
  "containsRx =
     seqs [Str (js ''contain''), Opt (Alt (Str (js ''ing'')) (Str (js ''s''))),
           PlusCls isSpace, Cap 1 (Cls isLowerLetter), Eol]"

text \<open>The nine patterns, each a step from the filters so far to the filters after it.\<close>

definition pattern1 :: "jsstring \<Rightarrow> filters \<Rightarrow> filters" where
  "pattern1 lowerQuery f =
     (if includes_str lowerQuery (js ''palindrom'') then f\<lparr>flt_is_palindrome := Some True\<rparr>
      else f)"

definition pattern2 :: "jsstring \<Rightarrow> filters \<Rightarrow> filters" where
  "pattern2 lowerQuery f =
     (if includes_str lowerQuery (js ''single word'') \<or> includes_str lowerQuery (js ''one word'')
      then f\<lparr>flt_word_count := Some (Num 1)\<rparr> else f)"

definition pattern3 :: "jsstring \<Rightarrow> filters \<Rightarrow> filters" where
  "pattern3 lowerQuery f =
     (if includes_str lowerQuery (js ''two word'') \<or> includes_str lowerQuery (js ''double word'')
      then f\<lparr>flt_word_count := Some (Num 2)\<rparr> else f)"

definition pattern4 :: "jsstring \<Rightarrow> filters \<Rightarrow> filters" where
  "pattern4 lowerQuery f =
     (case match_rx longerThanRx lowerQuery of
        None \<Rightarrow> f
      | Some longerThanMatch \<Rightarrow>
          (let len = parseIntArg (orElse (group longerThanMatch 1) (group longerThanMatch 2))
           in f\<lparr>flt_min_length := Some (numAdd len (Num 1))\<rparr>))"

definition pattern5 :: "jsstring \<Rightarrow> filters \<Rightarrow> filters" where
  "pattern5 lowerQuery f =
     (case match_rx shorterThanRx lowerQuery of
        None \<Rightarrow> f
      | Some shorterThanMatch \<Rightarrow>
          (let len = parseIntArg (orElse (group shorterThanMatch 1) (group shorterThanMatch 2))
           in f\<lparr>flt_max_length := Some (numSub len (Num 1))\<rparr>))"

definition pattern6 :: "jsstring \<Rightarrow> filters \<Rightarrow> filters" where
  "pattern6 lowerQuery f =
     (case match_rx atLeastRx lowerQuery of
        None \<Rightarrow> f
      | Some atLeastMatch \<Rightarrow> f\<lparr>flt_min_length := Some (parseIntArg (group atLeastMatch 1))\<rparr>)"

definition pattern7 :: "jsstring \<Rightarrow> filters \<Rightarrow> filters" where
  "pattern7 lowerQuery f =
     (case match_rx letterRx lowerQuery of
        None \<Rightarrow> f
      | Some letterMatch \<Rightarrow>
          f\<lparr>flt_contains_character := orElse (group letterMatch 1) (group letterMatch 2)\<rparr>)"

definition pattern8 :: "jsstring \<Rightarrow> filters \<Rightarrow> filters" where
  "pattern8 lowerQuery f =
     (case match_rx containsRx lowerQuery of
        None \<Rightarrow> f
      | Some containsMatch \<Rightarrow> f\<lparr>flt_contains_character := group containsMatch 1\<rparr>)"

definition vowels :: "jsstring list" where
  "vowels = [js ''a'', js ''e'', js ''i'', js ''o'', js ''u'']"

definition vowelWords :: "jsstring list" where
  "vowelWords = [js ''first'', js ''second'', js ''third'', js ''fourth'', js ''fifth'']"

text \<open>The body of the \<open>forEach\<close> callback, and the loop over the words with their
  indices.\<close>

definition vowelStep :: "jsstring \<Rightarrow> filters \<Rightarrow> jsstring \<times> nat \<Rightarrow> filters" where
  "vowelStep lowerQuery f wi =
     (if includes_str lowerQuery (fst wi @ js '' vowel'')
      then f\<lparr>flt_contains_character := Some (vowels ! snd wi)\<rparr> else f)"

definition pattern9 :: "jsstring \<Rightarrow> filters \<Rightarrow> filters" where
  "pattern9 lowerQuery f =
     foldl (vowelStep lowerQuery) f (zip vowelWords [0..<length vowelWords])"

definition parseNaturalLanguageQuery :: "(jsstring \<Rightarrow> jsstring) \<Rightarrow> jsstring \<Rightarrow> filters" where
  "parseNaturalLanguageQuery unicodeLower query =
     (let lowerQuery = toLowerCase unicodeLower query
      in pattern9 lowerQuery (pattern8 lowerQuery (pattern7 lowerQuery (pattern6 lowerQuery
           (pattern5 lowerQuery (pattern4 lowerQuery (pattern3 lowerQuery
             (pattern2 lowerQuery (pattern1 lowerQuery noFilters)))))))))"

section \<open>The request handlers (routes/strings.js)\<close>

datatype body =
    ErrorBody string
  | ParseErrorBody string jsstring
  | ListBody "stringData list" nat filters
  | InterpretedBody "stringData list" nat jsstring filters

record response =
  status :: nat
  body :: body

text \<open>The five filter expressions, as both list handlers write them.\<close>

definition keepPalindrome :: "bool \<Rightarrow> stringData list \<Rightarrow> stringData list" where
  "keepPalindrome b strings = filter (\<lambda>s. is_palindrome (properties s) = b) strings"

definition keepMinLength :: "jsnum \<Rightarrow> stringData list \<Rightarrow> stringData list" where
  "keepMinLength n strings = filter (\<lambda>s. geNum (length_f (properties s)) n) strings"

definition keepMaxLength :: "jsnum \<Rightarrow> stringData list \<Rightarrow> stringData list" where
  "keepMaxLength n strings = filter (\<lambda>s. leNum (length_f (properties s)) n) strings"

definition keepWordCount :: "jsnum \<Rightarrow> stringData list \<Rightarrow> stringData list" where
  "keepWordCount n strings = filter (\<lambda>s. eqNum (word_count (properties s)) n) strings"

definition keepContains :: "jsstring \<Rightarrow> stringData list \<Rightarrow> stringData list" where
  "keepContains c strings = filter (\<lambda>s. includes_str (value_f s) c) strings"

text \<open>
  \<open>GET /strings/filter-by-natural-language\<close>. The argument is
  \<open>req.query.query\<close>, \<open>None\<close> when the parameter is missing; a missing and an
  empty string are both falsy.
\<close>

definition filterByNaturalLanguage ::
  "(jsstring \<Rightarrow> jsstring) \<Rightarrow> stringStore \<Rightarrow> jsstring option \<Rightarrow> response" where
  "filterByNaturalLanguage unicodeLower stringStore query =
     (case query of
        None \<Rightarrow> \<lparr> status = 400, body = ErrorBody ''Query parameter is required'' \<rparr>
      | Some q \<Rightarrow>
          if q = [] then \<lparr> status = 400, body = ErrorBody ''Query parameter is required'' \<rparr>
          else
            (let parsedFilters = parseNaturalLanguageQuery unicodeLower q
             in if keyCount parsedFilters = 0
                then \<lparr> status = 400,
                       body = ParseErrorBody ''Unable to parse natural language query'' q \<rparr>
                else
                  (let strings = getAllString stringStore;
                       strings = (case flt_is_palindrome parsedFilters of
                                    None \<Rightarrow> strings | Some b \<Rightarrow> keepPalindrome b strings);
                       strings = (case flt_min_length parsedFilters of
                                    None \<Rightarrow> strings | Some n \<Rightarrow> keepMinLength n strings);
                       strings = (case flt_max_length parsedFilters of
                                    None \<Rightarrow> strings | Some n \<Rightarrow> keepMaxLength n strings);
                       strings = (case flt_word_count parsedFilters of
                                    None \<Rightarrow> strings | Some n \<Rightarrow> keepWordCount n strings);
                       strings = (case flt_contains_character parsedFilters of
                                    None \<Rightarrow> strings | Some c \<Rightarrow> keepContains c strings)
                   in \<lparr> status = 200,
                         body = InterpretedBody strings (length strings) q parsedFilters \<rparr>)))"

text \<open>
  \<open>GET /strings\<close>. The query parameters are strings or missing. Each step of the
  handler either ends the request with a response or hands the list and the filters
  applied so far to the next step.
\<close>

record listQuery =
  q_is_palindrome :: "jsstring option"
  q_min_length :: "jsstring option"
  q_max_length :: "jsstring option"
  q_word_count :: "jsstring option"
  q_contains_character :: "jsstring option"

definition noQuery :: listQuery where
  "noQuery = \<lparr> q_is_palindrome = None, q_min_length = None, q_max_length = None,
               q_word_count = None, q_contains_character = None \<rparr>"

type_synonym progress = "stringData list \<times> filters"

definition badRequest :: "string \<Rightarrow> response" where
  "badRequest msg = \<lparr> status = 400, body = ErrorBody msg \<rparr>"

definition stepPalindrome :: "listQuery \<Rightarrow> progress \<Rightarrow> response + progress" where
  "stepPalindrome q pr =
     (case q_is_palindrome q of
        None \<Rightarrow> Inr pr
      | Some v \<Rightarrow>
          (let isPalindromeFilter = (v = js ''true'')
           in Inr (keepPalindrome isPalindromeFilter (fst pr),
                   (snd pr)\<lparr>flt_is_palindrome := Some isPalindromeFilter\<rparr>)))"

definition stepMinLength :: "listQuery \<Rightarrow> progress \<Rightarrow> response + progress" where
  "stepMinLength q pr =
     (case q_min_length q of
        None \<Rightarrow> Inr pr
      | Some v \<Rightarrow>
          (let minLength = parseInt v
           in if isNaN minLength
              then Inl (badRequest ''Invalid min_length parameter: must be a number'')
              else Inr (keepMinLength minLength (fst pr),
                        (snd pr)\<lparr>flt_min_length := Some minLength\<rparr>)))"

definition stepMaxLength :: "listQuery \<Rightarrow> progress \<Rightarrow> response + progress" where
  "stepMaxLength q pr =
     (case q_max_length q of
        None \<Rightarrow> Inr pr
      | Some v \<Rightarrow>
          (let maxLength = parseInt v
           in if isNaN maxLength
              then Inl (badRequest ''Invalid max_length parameter: must be a number'')
              else Inr (keepMaxLength maxLength (fst pr),
                        (snd pr)\<lparr>flt_max_length := Some maxLength\<rparr>)))"

definition stepWordCount :: "listQuery \<Rightarrow> progress \<Rightarrow> response + progress" where
  "stepWordCount q pr =
     (case q_word_count q of
        None \<Rightarrow> Inr pr
      | Some v \<Rightarrow>
          (let wordCount = parseInt v
           in if isNaN wordCount
              then Inl (badRequest ''Invalid word_count parameter: must be a number'')
              else Inr (keepWordCount wordCount (fst pr),
                        (snd pr)\<lparr>flt_word_count := Some wordCount\<rparr>)))"

definition stepContains :: "listQuery \<Rightarrow> progress \<Rightarrow> response + progress" where
  "stepContains q pr =
     (case q_contains_character q of
        None \<Rightarrow> Inr pr
      | Some char \<Rightarrow>
          if length char \<noteq> 1
          then Inl (badRequest
                 ''Invalid contains_character parameter: must be a single character'')
          else Inr (keepContains char (fst pr),
                    (snd pr)\<lparr>flt_contains_character := Some char\<rparr>))"

definition andThen ::
  "response + progress \<Rightarrow> (progress \<Rightarrow> response + progress) \<Rightarrow> response + progress" where
  "andThen r f = (case r of Inl resp \<Rightarrow> Inl resp | Inr pr \<Rightarrow> f pr)"

definition getStrings :: "stringStore \<Rightarrow> listQuery \<Rightarrow> response" where
  "getStrings stringStore q =
     (case andThen (andThen (andThen (andThen
             (stepPalindrome q (getAllString stringStore, noFilters))
             (stepMinLength q)) (stepMaxLength q)) (stepWordCount q)) (stepContains q) of
        Inl resp \<Rightarrow> resp
      | Inr (strings, filtersApplied) \<Rightarrow>
          \<lparr> status = 200, body = ListBody strings (length strings) filtersApplied \<rparr>)"

section \<open>Notions used to state the properties\<close>

text \<open>The decimal numeral of a natural number, as \<open>String(n)\<close> writes it.\<close>

fun decimal :: "nat \<Rightarrow> jsstring" where
  "decimal n = (if n < 10 then [0x30 + of_nat n]
                else decimal (n div 10) @ [0x30 + of_nat (n mod 10)])"

declare decimal.simps [simp del]

text \<open>
  The specification's reading of a filter set: a record survives when it satisfies every
  filter that is present, and an absent key imposes nothing.
\<close>

definition survives :: "filters \<Rightarrow> stringData \<Rightarrow> bool" where
  "survives f r =
     ((case flt_is_palindrome f of None \<Rightarrow> True
         | Some b \<Rightarrow> is_palindrome (properties r) = b)
      \<and> (case flt_min_length f of None \<Rightarrow> True
         | Some n \<Rightarrow> geNum (length_f (properties r)) n)
      \<and> (case flt_max_length f of None \<Rightarrow> True
         | Some n \<Rightarrow> leNum (length_f (properties r)) n)
      \<and> (case flt_word_count f of None \<Rightarrow> True
         | Some n \<Rightarrow> eqNum (word_count (properties r)) n)
      \<and> (case flt_contains_character f of None \<Rightarrow> True
         | Some c \<Rightarrow> includes_str (value_f r) c))"

text \<open>
  The invariant of the data model: the keys of the store are pairwise different, and
  every record is stored under its id, which is the digest of its value. The handlers
  only add records whose properties come from \<open>analyseString\<close>, which keeps it.
\<close>

definition storeInv :: "(jsstring \<Rightarrow> jsstring) \<Rightarrow> stringStore \<Rightarrow> bool" where
  "storeInv sha256 stringStore =
     (distinct (map fst stringStore)
      \<and> list_all (\<lambda>e. fst e = id_f (snd e) \<and> id_f (snd e) = sha256 (value_f (snd e)))
           stringStore)"

text \<open>No pattern of the translator applies to the lower-cased query.\<close>

definition noPatternMatches :: "jsstring \<Rightarrow> bool" where
  "noPatternMatches lowerQuery =
     (\<not> includes_str lowerQuery (js ''palindrom'')
      \<and> \<not> includes_str lowerQuery (js ''single word'')
      \<and> \<not> includes_str lowerQuery (js ''one word'')
      \<and> \<not> includes_str lowerQuery (js ''two word'')
      \<and> \<not> includes_str lowerQuery (js ''double word'')
      \<and> match_rx longerThanRx lowerQuery = None
      \<and> match_rx shorterThanRx lowerQuery = None
      \<and> match_rx atLeastRx lowerQuery = None
      \<and> match_rx letterRx lowerQuery = None
      \<and> match_rx containsRx lowerQuery = None
      \<and> list_all (\<lambda>w. \<not> includes_str lowerQuery (w @ js '' vowel'')) vowelWords)"

definition noVowelPhrase :: "jsstring \<Rightarrow> bool" where
  "noVowelPhrase lowerQuery =
     list_all (\<lambda>w. \<not> includes_str lowerQuery (w @ js '' vowel'')) vowelWords"

text \<open>The sum of the counts of a frequency table.\<close>

definition totalCount :: "(jsstring \<rightharpoonup> nat) \<Rightarrow> nat" where
  "totalCount f = (\<Sum>k\<in>dom f. the (f k))"

text \<open>
  The filters a \<open>GET /strings\<close> request asks for, and the validation the handler
  applies to them: a numeric parameter must parse, and \<open>contains_character\<close> must
  have length one.
\<close>

definition requestedFilters :: "listQuery \<Rightarrow> filters" where
  "requestedFilters q =
     \<lparr> flt_is_palindrome = map_option (\<lambda>v. v = js ''true'') (q_is_palindrome q),
       flt_min_length = map_option parseInt (q_min_length q),
       flt_max_length = map_option parseInt (q_max_length q),
       flt_word_count = map_option parseInt (q_word_count q),
       flt_contains_character = q_contains_character q \<rparr>"

definition validQuery :: "listQuery \<Rightarrow> bool" where
  "validQuery q =
     ((case q_min_length q of None \<Rightarrow> True | Some v \<Rightarrow> parseInt v \<noteq> NaN)
      \<and> (case q_max_length q of None \<Rightarrow> True | Some v \<Rightarrow> parseInt v \<noteq> NaN)
      \<and> (case q_word_count q of None \<Rightarrow> True | Some v \<Rightarrow> parseInt v \<noteq> NaN)
      \<and> (case q_contains_character q of None \<Rightarrow> True | Some c \<Rightarrow> length c = 1))"

text \<open>Four records over the values of lengths 3, 5, 7 and 10, with the identity as digest.\<close>

definition exampleRecord :: "jsstring \<Rightarrow> jsstring \<times> stringData" where
  "exampleRecord v =
     (v, \<lparr> id_f = v, value_f = v, properties = analyseString id id v,
           created_at = js ''2025-01-01T00:00:00.000Z'' \<rparr>)"

definition exampleStore :: stringStore where
  "exampleStore =
     map exampleRecord [js ''abc'', js ''abcde'', js ''abcdefg'', js ''abcdefghij'']"

section \<open>Properties of the analyser\<close>

lemmas lower_eval = toLowerCase_def js_def isAscii_def asciiLower_def isSpace_def

lemma dropWhile_all_spaces: "list_all isSpace s \<Longrightarrow> dropWhile isSpace s = []"
  by (simp add: list_all_iff)

lemma trim_spaces: "list_all isSpace s \<Longrightarrow> trim s = []"
  by (simp add: trim_def dropWhile_all_spaces)

lemma asciiLower_space: "isSpace c \<Longrightarrow> asciiLower c = c"
  by (auto simp: isSpace_def asciiLower_def word_le_nat_alt)

lemma toLowerCase_spaces: "list_all isSpace s \<Longrightarrow> toLowerCase u s = s"
proof -
  assume a: "list_all isSpace s"
  then have "list_all (\<lambda>c. isAscii c \<or> isSpace c) s"
    by (simp add: list_all_iff)
  moreover from a have "map asciiLower s = s"
    by (induction s) (simp_all add: asciiLower_space)
  ultimately show ?thesis by (simp add: toLowerCase_def)
qed

lemma palindrome_race_a_car: "isPalindrome u (js ''race a car'') = False"
  by (simp add: isPalindrome_def lower_eval)

lemma palindrome_racecar: "isPalindrome u (js ''racecar'') = True"
  by (simp add: isPalindrome_def lower_eval)

lemma palindrome_hello: "isPalindrome u (js ''hello'') = False"
  by (simp add: isPalindrome_def lower_eval)

text \<open>
  Claim C1, as the specification states it, says that the palindrome check is true on
  \<open>race a car\<close>. The code lower-cases and removes the whitespace, which gives
  \<open>raceacar\<close>; its reversal is \<open>racaecar\<close>, so the check is false.
\<close>

theorem C1_race_a_car_counterexample:
  "\<not> (is_palindrome (analyseString id id (js ''race a car'')) = True
      \<and> is_palindrome (analyseString id id (js ''racecar'')) = True
      \<and> is_palindrome (analyseString id id (js ''hello'')) = False)"
  by (simp add: analyseString_def palindrome_race_a_car)

text \<open>
  Claim C1, amended: the palindrome check (lower-case, remove all whitespace, compare with
  the reversal) is false on \<open>race a car\<close>, true on \<open>racecar\<close> and false on
  \<open>hello\<close>, whatever the digest function and the Unicode tables are.
\<close>

theorem C1_palindrome_examples:
  "is_palindrome (analyseString sha256 unicodeLower (js ''race a car'')) = False
   \<and> is_palindrome (analyseString sha256 unicodeLower (js ''racecar'')) = True
   \<and> is_palindrome (analyseString sha256 unicodeLower (js ''hello'')) = False"
  by (simp add: analyseString_def palindrome_race_a_car palindrome_racecar palindrome_hello)

text \<open>
  Claim C4: for every string that is empty or consists of whitespace only, the word count
  is 1 (trimming leaves the empty string, and splitting it gives one empty piece); the
  word count of \<open>hello world\<close> is 2.
\<close>

theorem C4_word_count_blank:
  "(list_all isSpace s \<longrightarrow> word_count (analyseString sha256 unicodeLower s) = 1)
   \<and> word_count (analyseString sha256 unicodeLower (js ''hello world'')) = 2"
  by (simp add: analyseString_def trim_spaces) (simp add: trim_def js_def isSpace_def)

theorem C4_word_count_blank_witness:
  "list_all isSpace (js '' '' @ [0x09, 0xA0])
   \<and> word_count (analyseString id id (js '' '' @ [0x09, 0xA0])) = 1
   \<and> word_count (analyseString id id []) = 1"
  using C4_word_count_blank [of "js '' '' @ [0x09, 0xA0]" id id]
        C4_word_count_blank [of "[]" id id]
  by (simp add: js_def isSpace_def)

text \<open>
  Claim C9: for every non-empty string that consists of whitespace only, the analyser
  reports a palindrome: removing the whitespace leaves the empty string, which equals its
  reversal.
\<close>

theorem C9_blank_is_palindrome:
  "s \<noteq> [] \<Longrightarrow> list_all isSpace s \<Longrightarrow> is_palindrome (analyseString sha256 unicodeLower s)"
proof -
  assume a: "list_all isSpace s"
  then have "filter (\<lambda>c. \<not> isSpace c) s = []"
    by (simp add: list_all_iff)
  with a show ?thesis
    by (simp add: analyseString_def isPalindrome_def toLowerCase_spaces)
qed

theorem C9_blank_is_palindrome_witness:
  "js ''   '' \<noteq> [] \<and> list_all isSpace (js ''   '')
   \<and> is_palindrome (analyseString id id (js ''   ''))"
proof -
  have h1: "js ''   '' \<noteq> []" by (simp add: js_def)
  have h2: "list_all isSpace (js ''   '')" by (simp add: js_def isSpace_def)
  show ?thesis using h1 h2 C9_blank_is_palindrome [OF h1 h2, of id id] by simp
qed

lemma tally_dom: "dom (tally f c) = insert c (dom f)"
  by (auto simp: tally_def split: option.splits if_splits)

lemma tallyAll_dom: "dom (tallyAll f cs) = dom f \<union> set cs"
  by (induction cs arbitrary: f) (auto simp: tally_dom)

lemma tally_pos:
  assumes "\<forall>k n. f k = Some n \<longrightarrow> 1 \<le> n"
  shows "\<forall>k n. tally f c k = Some n \<longrightarrow> 1 \<le> n"
  using assms by (auto simp: tally_def split: option.splits if_splits)

lemma tallyAll_pos:
  "\<forall>k n. f k = Some n \<longrightarrow> 1 \<le> n \<Longrightarrow> \<forall>k n. tallyAll f cs k = Some n \<longrightarrow> 1 \<le> n"
proof (induction cs arbitrary: f)
  case Nil
  then show ?case by simp
next
  case (Cons c cs)
  have "\<forall>k n. tally f c k = Some n \<longrightarrow> 1 \<le> n"
    by (rule tally_pos) (rule Cons.prems)
  then show ?case using Cons.IH by simp
qed

lemma totalCount_new:
  assumes fin: "finite (dom f)" and new: "f c = None"
  shows "totalCount (f(c \<mapsto> n)) = totalCount f + n"
proof -
  have notin: "c \<notin> dom f" using new by (simp add: domIff)
  have "(\<Sum>k\<in>insert c (dom f). the ((f(c \<mapsto> n)) k)) = n + (\<Sum>k\<in>dom f. the (f k))"
  proof -
    have "(\<Sum>k\<in>insert c (dom f). the ((f(c \<mapsto> n)) k))
          = the ((f(c \<mapsto> n)) c) + (\<Sum>k\<in>dom f. the ((f(c \<mapsto> n)) k))"
      using fin notin by (rule sum.insert)
    moreover have "(\<Sum>k\<in>dom f. the ((f(c \<mapsto> n)) k)) = (\<Sum>k\<in>dom f. the (f k))"
      by (rule sum.cong) (use notin in auto)
    ultimately show ?thesis by simp
  qed
  then show ?thesis by (simp add: totalCount_def)
qed

lemma totalCount_old:
  assumes fin: "finite (dom f)" and old: "f c = Some m"
  shows "totalCount (f(c \<mapsto> n)) + m = totalCount f + n"
proof -
  have isin: "c \<in> dom f" using old by (simp add: domIff)
  have d: "insert c (dom f) = dom f" using isin by auto
  have r: "\<And>g. (\<Sum>k\<in>dom f. g k) = g c + (\<Sum>k\<in>dom f - {c}. g k)"
    using fin isin by (rule sum.remove)
  have e: "(\<Sum>k\<in>dom f - {c}. the ((f(c \<mapsto> n)) k)) = (\<Sum>k\<in>dom f - {c}. the (f k))"
    by (rule sum.cong) auto
  have "(\<Sum>k\<in>dom f. the ((f(c \<mapsto> n)) k)) = n + (\<Sum>k\<in>dom f - {c}. the (f k))"
    using r [of "\<lambda>k. the ((f(c \<mapsto> n)) k)"] e by simp
  moreover have "(\<Sum>k\<in>dom f. the (f k)) = m + (\<Sum>k\<in>dom f - {c}. the (f k))"
    using r [of "\<lambda>k. the (f k)"] old by simp
  ultimately show ?thesis by (simp add: totalCount_def d)
qed

lemma tally_totalCount: "finite (dom f) \<Longrightarrow> totalCount (tally f c) = totalCount f + 1"
proof (cases "f c")
  case None
  assume "finite (dom f)"
  then show ?thesis using None totalCount_new [of f c 1] by (simp add: tally_def)
next
  case (Some m)
  assume fin: "finite (dom f)"
  show ?thesis
  proof (cases "m = 0")
    case True
    then show ?thesis using Some fin totalCount_old [of f c m 1] by (simp add: tally_def)
  next
    case False
    then show ?thesis using Some fin totalCount_old [of f c m "m + 1"] by (simp add: tally_def)
  qed
qed

lemma tallyAll_totalCount: "finite (dom f) \<Longrightarrow> totalCount (tallyAll f cs) = totalCount f + length cs"
proof (induction cs arbitrary: f)
  case Nil
  then show ?case by simp
next
  case (Cons c cs)
  have "finite (dom (tally f c))" using Cons.prems by (simp add: tally_dom)
  then show ?case using Cons.IH [of "tally f c"] Cons.prems by (simp add: tally_totalCount)
qed

text \<open>
  Claim C10: for every string, \<open>unique_characters\<close> is the number of keys of
  \<open>character_frequency\<close>, every count in \<open>character_frequency\<close> is at least 1,
  and the counts add up to the number of code points of the string.
\<close>

theorem C10_frequency_table:
  "unique_characters (analyseString sha256 unicodeLower s)
     = card (dom (character_frequency (analyseString sha256 unicodeLower s)))
   \<and> (\<forall>k n. character_frequency (analyseString sha256 unicodeLower s) k = Some n \<longrightarrow> 1 \<le> n)
   \<and> totalCount (character_frequency (analyseString sha256 unicodeLower s))
       = length (codePoints s)"
proof -
  have a: "dom (countCharacterFrequency s) = set (codePoints s)"
    by (simp add: countCharacterFrequency_def tallyAll_dom)
  have b: "\<forall>k n. countCharacterFrequency s k = Some n \<longrightarrow> 1 \<le> n"
    unfolding countCharacterFrequency_def by (rule tallyAll_pos) simp
  have "totalCount (tallyAll Map.empty (codePoints s))
        = totalCount Map.empty + length (codePoints s)"
    by (rule tallyAll_totalCount) simp
  moreover have "totalCount Map.empty = 0" by (simp add: totalCount_def)
  ultimately have c: "totalCount (countCharacterFrequency s) = length (codePoints s)"
    by (simp add: countCharacterFrequency_def)
  show ?thesis using a b c by (simp add: analyseString_def)
qed

theorem C10_frequency_table_witness:
  "character_frequency (analyseString id id (js ''aab'')) (js ''a'') = Some 2
   \<and> (1::nat) \<le> 2
   \<and> unique_characters (analyseString id id (js ''aab'')) = 2
   \<and> totalCount (character_frequency (analyseString id id (js ''aab''))) = 3"
  using C10_frequency_table [of id id "js ''aab''"]
  by (simp add: analyseString_def countCharacterFrequency_def tally_def js_def
        isHighSurrogate_def isLowSurrogate_def)

section \<open>Properties of the store\<close>

lemma mapSet_new: "\<not> mapHas m k \<Longrightarrow> mapSet m k v = m @ [(k, v)]"
  by (induction m) (auto simp: mapHas_def)

lemma mapHas_append: "mapHas (m @ [(k, v)]) k' = (mapHas m k' \<or> k' = k)"
  by (auto simp: mapHas_def)

lemma addString_new:
  "\<not> mapHas st (sha256_hash p) \<Longrightarrow>
   addString st v p now =
     (st @ [(sha256_hash p, \<lparr> id_f = sha256_hash p, value_f = v, properties = p, created_at = now \<rparr>)],
      Inr \<lparr> id_f = sha256_hash p, value_f = v, properties = p, created_at = now \<rparr>)"
  by (simp add: addString_def mapSet_new Let_def)

lemma addString_old:
  "mapHas st (sha256_hash p) \<Longrightarrow>
   addString st v p now =
     (st, Inl \<lparr> message = ''Error: This string already exist'', statusCode = 409 \<rparr>)"
  by (simp add: addString_def Let_def)

lemma addString_has: "mapHas (fst (addString st v p now)) (sha256_hash p)"
  by (cases "mapHas st (sha256_hash p)") (simp_all add: addString_new addString_old mapHas_append)

text \<open>
  Claim C3: calling \<open>addString\<close> twice with the same value and properties throws the
  duplicate error, with status code 409, on the second call, and the failed call leaves the
  store and its count as they were; the first call, when the id is new, appends the new
  record and returns it.
\<close>

theorem C3_add_twice:
  "snd (addString (fst (addString st v p t1)) v p t2)
     = Inl \<lparr> message = ''Error: This string already exist'', statusCode = 409 \<rparr>
   \<and> fst (addString (fst (addString st v p t1)) v p t2) = fst (addString st v p t1)
   \<and> getCount (fst (addString (fst (addString st v p t1)) v p t2))
       = getCount (fst (addString st v p t1))
   \<and> (\<not> mapHas st (sha256_hash p) \<longrightarrow>
        snd (addString st v p t1)
          = Inr \<lparr> id_f = sha256_hash p, value_f = v, properties = p, created_at = t1 \<rparr>
        \<and> fst (addString st v p t1)
          = st @ [(sha256_hash p,
                   \<lparr> id_f = sha256_hash p, value_f = v, properties = p, created_at = t1 \<rparr>)]
        \<and> getCount (fst (addString st v p t1)) = getCount st + 1)"
proof -
  have "mapHas (fst (addString st v p t1)) (sha256_hash p)" by (rule addString_has)
  then have "addString (fst (addString st v p t1)) v p t2
      = (fst (addString st v p t1),
         Inl \<lparr> message = ''Error: This string already exist'', statusCode = 409 \<rparr>)"
    by (rule addString_old)
  then show ?thesis by (simp add: addString_new getCount_def)
qed

theorem C3_add_twice_witness:
  "\<not> mapHas [] (sha256_hash (analyseString id id (js ''abc'')))
   \<and> getCount (fst (addString [] (js ''abc'') (analyseString id id (js ''abc'')) (js ''t1'')))
       = getCount [] + 1
   \<and> snd (addString (fst (addString [] (js ''abc'') (analyseString id id (js ''abc''))
             (js ''t1''))) (js ''abc'') (analyseString id id (js ''abc'')) (js ''t2''))
       = Inl \<lparr> message = ''Error: This string already exist'', statusCode = 409 \<rparr>
   \<and> getCount (fst (addString (fst (addString [] (js ''abc'')
             (analyseString id id (js ''abc'')) (js ''t1''))) (js ''abc'')
             (analyseString id id (js ''abc'')) (js ''t2'')))
       = getCount (fst (addString [] (js ''abc'') (analyseString id id (js ''abc''))
             (js ''t1'')))"
proof -
  have h: "\<not> mapHas [] (sha256_hash (analyseString id id (js ''abc'')))"
    by (simp add: mapHas_def)
  show ?thesis
    using h C3_add_twice [of "[]" "js ''abc''" "analyseString id id (js ''abc'')"
                             "js ''t1''" "js ''t2''"]
    by blast
qed

lemma storeInv_empty: "storeInv sha []"
  by (simp add: storeInv_def)

lemma storeInv_add:
  assumes "storeInv sha st"
  shows "storeInv sha (fst (addString st v (analyseString sha u v) now))"
proof (cases "mapHas st (sha v)")
  case True
  then show ?thesis using assms by (simp add: addString_old analyseString_def)
next
  case False
  then show ?thesis using assms
    by (simp add: addString_new analyseString_def storeInv_def mapHas_def)
qed

lemma inv_value_key:
  "storeInv sha st \<Longrightarrow> e \<in> set st \<Longrightarrow> fst e = sha (value_f (snd e))"
  by (auto simp: storeInv_def list_all_iff)

lemma inv_filter_key:
  assumes inv: "storeInv sha st" and e: "e \<in> set st" and v: "value_f (snd e) = v"
  shows "filter (\<lambda>x. fst x \<noteq> fst e) st = filter (\<lambda>x. value_f (snd x) \<noteq> v) st"
proof (rule filter_cong [OF refl])
  fix x assume x: "x \<in> set st"
  have d: "distinct (map fst st)" using inv by (simp add: storeInv_def)
  show "(fst x \<noteq> fst e) = (value_f (snd x) \<noteq> v)"
  proof
    assume "fst x \<noteq> fst e"
    then show "value_f (snd x) \<noteq> v"
      using inv_value_key [OF inv x] inv_value_key [OF inv e] v by auto
  next
    assume a: "value_f (snd x) \<noteq> v"
    show "fst x \<noteq> fst e"
    proof
      assume "fst x = fst e"
      then have "x = e" using d x e by (metis eq_key_imp_eq_value prod.collapse)
      then show False using a v by simp
    qed
  qed
qed

lemma deleteLoop_inv:
  assumes inv: "storeInv sha st" and sub: "set es \<subseteq> set st"
  shows "deleteLoop st es v =
     (if \<exists>e\<in>set es. value_f (snd e) = v
      then (filter (\<lambda>x. value_f (snd x) \<noteq> v) st, True) else (st, False))"
  using sub
proof (induction es)
  case Nil
  then show ?case by simp
next
  case (Cons e es)
  obtain k d where e: "e = (k, d)" by (cases e)
  show ?case
  proof (cases "value_f d = v")
    case True
    have m: "e \<in> set st" using Cons.prems by simp
    have "mapHas st k" using m e by (force simp: mapHas_def)
    moreover have "filter (\<lambda>x. fst x \<noteq> k) st = filter (\<lambda>x. value_f (snd x) \<noteq> v) st"
      using inv_filter_key [OF inv m, of v] True e by simp
    ultimately show ?thesis using True e by (simp add: mapDelete_def)
  next
    case False
    then show ?thesis using Cons e by simp
  qed
qed

lemma delete_inv:
  "storeInv sha st \<Longrightarrow> deleteStringByValue st v =
     (if \<exists>e\<in>set st. value_f (snd e) = v
      then (filter (\<lambda>x. value_f (snd x) \<noteq> v) st, True) else (st, False))"
  unfolding deleteStringByValue_def by (rule deleteLoop_inv) simp_all

lemma get_none: "(getStringByValue st v = None) = (\<forall>e\<in>set st. value_f (snd e) \<noteq> v)"
  by (induction st v rule: getStringByValue.induct) auto

lemma get_filter_other:
  "w \<noteq> v \<Longrightarrow> getStringByValue (filter (\<lambda>x. value_f (snd x) \<noteq> v) st) w = getStringByValue st w"
  by (induction st w rule: getStringByValue.induct) auto

lemma storeInv_delete:
  "storeInv sha st \<Longrightarrow> storeInv sha (fst (deleteStringByValue st v))"
proof -
  assume inv: "storeInv sha st"
  have "fst (deleteStringByValue st v) = filter (\<lambda>x. value_f (snd x) \<noteq> v) st
        \<or> fst (deleteStringByValue st v) = st"
    by (simp add: delete_inv [OF inv])
  then show ?thesis
    using inv by (auto simp: storeInv_def list_all_iff distinct_map_filter)
qed

lemma deleteLoop_find:
  "deleteLoop st es v =
     (case find (\<lambda>e. value_f (snd e) = v) es of
        None \<Rightarrow> (st, False) | Some e \<Rightarrow> mapDelete st (fst e))"
  by (induction st es v rule: deleteLoop.induct) simp_all

lemma filter_key_remove1:
  "distinct (map fst st) \<Longrightarrow> e \<in> set st \<Longrightarrow> filter (\<lambda>x. fst x \<noteq> fst e) st = remove1 e st"
proof (induction st)
  case Nil
  then show ?case by simp
next
  case (Cons x st)
  show ?case
  proof (cases "x = e")
    case True
    have "\<forall>y\<in>set st. fst y \<noteq> fst e" using Cons.prems True by (auto simp: image_iff)
    then have "filter (\<lambda>y. fst y \<noteq> fst e) st = st" by (simp add: filter_id_conv)
    then show ?thesis using True by simp
  next
    case False
    then have e: "e \<in> set st" using Cons.prems by simp
    have "fst x \<noteq> fst e" using Cons.prems e by (auto simp: image_iff)
    then show ?thesis using False Cons.IH Cons.prems e by simp
  qed
qed

lemma delete_first_match:
  assumes "distinct (map fst s)"
  shows "deleteStringByValue s w =
     (case find (\<lambda>e. value_f (snd e) = w) s of
        None \<Rightarrow> (s, False) | Some e \<Rightarrow> (remove1 e s, True))"
proof (cases "find (\<lambda>e. value_f (snd e) = w) s")
  case None
  then show ?thesis by (simp add: deleteStringByValue_def deleteLoop_find)
next
  case (Some e)
  then have e: "e \<in> set s" by (auto simp: find_Some_iff)
  then have "mapHas s (fst e)" by (force simp: mapHas_def)
  then show ?thesis
    using Some filter_key_remove1 [OF assms e]
    by (simp add: deleteStringByValue_def deleteLoop_find mapDelete_def)
qed

lemma delete_under_inv:
  assumes inv: "storeInv sha s"
  shows "deleteStringByValue s w
         = (filter (\<lambda>x. value_f (snd x) \<noteq> w) s, getStringByValue s w \<noteq> None)"
proof (cases "\<exists>e\<in>set s. value_f (snd e) = w")
  case True
  then show ?thesis using delete_inv [OF inv, of w] by (auto simp: get_none)
next
  case False
  then have "filter (\<lambda>x. value_f (snd x) \<noteq> w) s = s" by (simp add: filter_id_conv)
  then show ?thesis using False delete_inv [OF inv, of w] by (auto simp: get_none)
qed

lemma get_after_delete:
  "getStringByValue (filter (\<lambda>x. value_f (snd x) \<noteq> w) s) w = None"
  by (simp add: get_none)

lemma get_append_new:
  "getStringByValue s v = None \<Longrightarrow> value_f r = v \<Longrightarrow> getStringByValue (s @ [(k, r)]) v = Some r"
  by (induction s v rule: getStringByValue.induct) (auto split: if_splits)

lemma delete_all_under_inv:
  assumes inv: "storeInv sha256 s"
  shows "deleteStringByValue s w
           = (filter (\<lambda>x. value_f (snd x) \<noteq> w) s, getStringByValue s w \<noteq> None)
     \<and> getStringByValue (fst (deleteStringByValue s w)) w = None
     \<and> deleteStringByValue (fst (deleteStringByValue s w)) w
           = (fst (deleteStringByValue s w), False)
     \<and> (\<forall>w'. w' \<noteq> w \<longrightarrow>
          getStringByValue (fst (deleteStringByValue s w)) w' = getStringByValue s w')
     \<and> storeInv sha256 (fst (deleteStringByValue s w))
     \<and> storeInv sha256 (fst (addString s w (analyseString sha256 unicodeLower w) now))"
proof -
  let ?s' = "filter (\<lambda>x. value_f (snd x) \<noteq> w) s"
  have d: "deleteStringByValue s w = (?s', getStringByValue s w \<noteq> None)"
    by (rule delete_under_inv [OF inv])
  have inv': "storeInv sha256 ?s'"
    using storeInv_delete [OF inv, of w] d by simp
  have g: "getStringByValue ?s' w = None" by (rule get_after_delete)
  have "filter (\<lambda>x. value_f (snd x) \<noteq> w) ?s' = ?s'" by simp
  then have d2: "deleteStringByValue ?s' w = (?s', False)"
    using delete_under_inv [OF inv', of w] g by simp
  have o: "\<forall>w'. w' \<noteq> w \<longrightarrow> getStringByValue ?s' w' = getStringByValue s w'"
    by (simp add: get_filter_other)
  show ?thesis
    using d inv' g d2 o storeInv_add [OF inv, of w unicodeLower now] by simp
qed

lemma example_store_inv: "distinct (map fst exampleStore)" "storeInv id exampleStore"
  by (simp_all add: storeInv_def exampleStore_def exampleRecord_def js_def)

lemma example_store_delete:
  "filter (\<lambda>x. value_f (snd x) \<noteq> js ''abcde'') exampleStore
     = map exampleRecord [js ''abc'', js ''abcdefg'', js ''abcdefghij'']"
  "find (\<lambda>e. value_f (snd e) = js ''abcde'') exampleStore = Some (exampleRecord (js ''abcde''))"
  "remove1 (exampleRecord (js ''abcde'')) exampleStore
     = map exampleRecord [js ''abc'', js ''abcdefg'', js ''abcdefghij'']"
  "getStringByValue exampleStore (js ''abcde'') \<noteq> None"
  by (simp_all add: exampleStore_def exampleRecord_def js_def)

text \<open>
  Claim C8: \<open>deleteStringByValue\<close> removes the first record whose value matches
  and nothing else, and returns whether there was one; every other record stays, in its
  order (this needs only that the store is a \<open>Map\<close>, its keys pairwise different).
  In a store that satisfies the invariant of the data model, which the empty store has and
  which adding an analysed value and deleting keep, a delete returns true exactly when the
  value is present, wherever its record stands; afterwards the value is absent, a second
  delete returns false and changes nothing, and looking up any other value gives what it
  gave before. In particular, after a value \<open>v\<close> has been inserted,
  \<open>getStringByValue v\<close> finds its record, \<open>deleteStringByValue v\<close> returns
  true and gives back the store before the insertion, a following
  \<open>getStringByValue v\<close> finds nothing, and a second
  \<open>deleteStringByValue v\<close> returns false.
\<close>

theorem C8_delete_by_value:
  "(distinct (map fst s) \<longrightarrow>
      deleteStringByValue s w =
        (case find (\<lambda>e. value_f (snd e) = w) s of
           None \<Rightarrow> (s, False) | Some e \<Rightarrow> (remove1 e s, True)))
   \<and> (storeInv sha256 s \<longrightarrow>
        deleteStringByValue s w
          = (filter (\<lambda>x. value_f (snd x) \<noteq> w) s, getStringByValue s w \<noteq> None)
        \<and> getStringByValue (fst (deleteStringByValue s w)) w = None
        \<and> deleteStringByValue (fst (deleteStringByValue s w)) w
          = (fst (deleteStringByValue s w), False)
        \<and> (\<forall>w'. w' \<noteq> w \<longrightarrow>
             getStringByValue (fst (deleteStringByValue s w)) w' = getStringByValue s w')
        \<and> storeInv sha256 (fst (deleteStringByValue s w))
        \<and> storeInv sha256 (fst (addString s w (analyseString sha256 unicodeLower w) now)))
   \<and> storeInv sha256 []
   \<and> (storeInv sha256 st
        \<and> addString st v (analyseString sha256 unicodeLower v) now = (st1, Inr r) \<longrightarrow>
        getStringByValue st1 v = Some r
        \<and> snd (deleteStringByValue st1 v) = True
        \<and> getStringByValue (fst (deleteStringByValue st1 v)) v = None
        \<and> snd (deleteStringByValue (fst (deleteStringByValue st1 v)) v) = False
        \<and> fst (deleteStringByValue st1 v) = filter (\<lambda>x. value_f (snd x) \<noteq> v) st1
        \<and> fst (deleteStringByValue st1 v) = st
        \<and> (\<forall>w. w \<noteq> v \<longrightarrow>
             getStringByValue (fst (deleteStringByValue st1 v)) w = getStringByValue st1 w))"
proof -
  have ins: "getStringByValue st1 v = Some r
        \<and> snd (deleteStringByValue st1 v) = True
        \<and> getStringByValue (fst (deleteStringByValue st1 v)) v = None
        \<and> snd (deleteStringByValue (fst (deleteStringByValue st1 v)) v) = False
        \<and> fst (deleteStringByValue st1 v) = filter (\<lambda>x. value_f (snd x) \<noteq> v) st1
        \<and> fst (deleteStringByValue st1 v) = st
        \<and> (\<forall>w. w \<noteq> v \<longrightarrow>
             getStringByValue (fst (deleteStringByValue st1 v)) w = getStringByValue st1 w)"
    if inv: "storeInv sha256 st"
      and add: "addString st v (analyseString sha256 unicodeLower v) now = (st1, Inr r)"
  proof -
    have hash: "sha256_hash (analyseString sha256 unicodeLower v) = sha256 v"
      by (simp add: analyseString_def)
    have new: "\<not> mapHas st (sha256 v)"
    proof
      assume "mapHas st (sha256 v)"
      then have "snd (addString st v (analyseString sha256 unicodeLower v) now)
                 = Inl \<lparr> message = ''Error: This string already exist'', statusCode = 409 \<rparr>"
        by (simp add: addString_old hash)
      then show False using add by simp
    qed
    have st1: "st1 = st @ [(sha256 v, r)]" and r: "value_f r = v"
      using add new by (auto simp: addString_new hash)
    have inv1: "storeInv sha256 st1"
      using storeInv_add [OF inv, of v unicodeLower now] add by simp
    have absent: "\<forall>e\<in>set st. value_f (snd e) \<noteq> v"
    proof
      fix e assume e: "e \<in> set st"
      show "value_f (snd e) \<noteq> v"
      proof
        assume "value_f (snd e) = v"
        then have "fst e = sha256 v" using inv_value_key [OF inv e] by simp
        then have "mapHas st (sha256 v)" using e by (force simp: mapHas_def)
        then show False using new by simp
      qed
    qed
    have keep: "filter (\<lambda>x. value_f (snd x) \<noteq> v) st = st"
      using absent by (simp add: filter_id_conv)
    have f1: "filter (\<lambda>x. value_f (snd x) \<noteq> v) st1 = st"
      using keep r by (simp add: st1)
    have d1: "deleteStringByValue st1 v = (st, True)"
      using delete_inv [OF inv1, of v] f1 r by (simp add: st1)
    have d2: "deleteStringByValue st v = (st, False)"
      using delete_inv [OF inv, of v] absent by simp
    have g: "getStringByValue st v = None"
      using absent by (simp add: get_none)
    have g1: "getStringByValue st1 v = Some r"
      unfolding st1 using g r by (rule get_append_new)
    have o: "\<forall>w. w \<noteq> v \<longrightarrow> getStringByValue st w = getStringByValue st1 w"
      using get_filter_other [of _ v st1] f1 by auto
    show ?thesis using d1 d2 g g1 f1 o by simp
  qed
  show ?thesis
    using delete_first_match [of s w] delete_all_under_inv [of sha256 s w unicodeLower now]
      storeInv_empty [of sha256] ins
    by blast
qed

theorem C8_delete_by_value_witness:
  "distinct (map fst exampleStore)
   \<and> storeInv id exampleStore
   \<and> deleteStringByValue exampleStore (js ''abcde'')
       = (map exampleRecord [js ''abc'', js ''abcdefg'', js ''abcdefghij''], True)
   \<and> addString exampleStore (js ''a'') (analyseString id id (js ''a'')) (js ''t1'')
       = (exampleStore @ [(js ''a'', \<lparr> id_f = js ''a'', value_f = js ''a'',
                  properties = analyseString id id (js ''a''), created_at = js ''t1'' \<rparr>)],
          Inr \<lparr> id_f = js ''a'', value_f = js ''a'',
                  properties = analyseString id id (js ''a''), created_at = js ''t1'' \<rparr>)
   \<and> deleteStringByValue
        (exampleStore @ [(js ''a'', \<lparr> id_f = js ''a'', value_f = js ''a'',
                  properties = analyseString id id (js ''a''), created_at = js ''t1'' \<rparr>)])
        (js ''a'') = (exampleStore, True)"
proof -
  let ?a = "\<lparr> id_f = js ''a'', value_f = js ''a'',
              properties = analyseString id id (js ''a''), created_at = js ''t1'' \<rparr>"
  let ?s1 = "exampleStore @ [(js ''a'', ?a)]"
  have hash: "sha256_hash (analyseString id id (js ''a'')) = js ''a''"
    by (simp add: analyseString_def)
  have "\<not> mapHas exampleStore (sha256_hash (analyseString id id (js ''a'')))"
    unfolding hash by (simp add: mapHas_def exampleStore_def exampleRecord_def js_def)
  then have h2: "addString exampleStore (js ''a'') (analyseString id id (js ''a'')) (js ''t1'')
             = (?s1, Inr ?a)"
    by (simp add: addString_new hash)
  note t = C8_delete_by_value [of exampleStore "js ''abcde''" id id "js ''t1''"
             exampleStore "js ''a''" ?s1 ?a]
  have d: "deleteStringByValue exampleStore (js ''abcde'')
       = (map exampleRecord [js ''abc'', js ''abcdefg'', js ''abcdefghij''], True)"
    using t example_store_inv example_store_delete by simp
  have "snd (deleteStringByValue ?s1 (js ''a'')) = True
        \<and> fst (deleteStringByValue ?s1 (js ''a'')) = exampleStore"
    using t example_store_inv h2 by blast
  then have d1: "deleteStringByValue ?s1 (js ''a'') = (exampleStore, True)"
    by (simp add: prod_eq_iff)
  show ?thesis using example_store_inv d h2 d1 by (simp only: simp_thms)
qed

section \<open>Properties of the list handlers\<close>

lemma startsWith_iff: "startsWith s t = (\<exists>ss. s = t @ ss)"
  by (induction s t rule: startsWith.induct) auto

lemma includes_str_iff: "includes_str s t = (\<exists>ps ss. s = ps @ t @ ss)"
proof (induction s)
  case Nil
  then show ?case by (auto simp: startsWith_iff)
next
  case (Cons c cs)
  show ?case
  proof
    assume "includes_str (c # cs) t"
    then consider "startsWith (c # cs) t" | "includes_str cs t" by auto
    then show "\<exists>ps ss. c # cs = ps @ t @ ss"
    proof cases
      case 1
      then obtain ss where "c # cs = t @ ss" by (auto simp: startsWith_iff)
      then have "c # cs = [] @ t @ ss" by simp
      then show ?thesis by blast
    next
      case 2
      then obtain ps ss where "cs = ps @ t @ ss" using Cons.IH by auto
      then have "c # cs = (c # ps) @ t @ ss" by simp
      then show ?thesis by blast
    qed
  next
    assume "\<exists>ps ss. c # cs = ps @ t @ ss"
    then obtain ps ss where e: "c # cs = ps @ t @ ss" by blast
    show "includes_str (c # cs) t"
    proof (cases ps)
      case Nil
      then have "startsWith (c # cs) t" using e by (auto simp: startsWith_iff)
      then show ?thesis by simp
    next
      case (Cons p ps')
      then have "cs = ps' @ t @ ss" using e by simp
      then have "includes_str cs t" using Cons.IH by blast
      then show ?thesis by simp
    qed
  qed
qed

lemma case_map_option: "(case x of None \<Rightarrow> None | Some v \<Rightarrow> Some (g v)) = map_option g x"
  by (cases x) simp_all

lemma case_of_map_option:
  "(case map_option g x of None \<Rightarrow> a | Some b \<Rightarrow> h b) = (case x of None \<Rightarrow> a | Some v \<Rightarrow> h (g v))"
  by (cases x) simp_all

lemma case_option_id: "(case x of None \<Rightarrow> None | Some c \<Rightarrow> Some c) = x"
  by (cases x) simp_all

lemma stepPalindrome_eq:
  "stepPalindrome q pr =
     Inr (filter (\<lambda>r. case q_is_palindrome q of None \<Rightarrow> True
                     | Some v \<Rightarrow> is_palindrome (properties r) = (v = js ''true'')) (fst pr),
          (snd pr)\<lparr>flt_is_palindrome :=
             case q_is_palindrome q of None \<Rightarrow> flt_is_palindrome (snd pr)
             | Some v \<Rightarrow> Some (v = js ''true'')\<rparr>)"
  by (cases "q_is_palindrome q") (simp_all add: stepPalindrome_def keepPalindrome_def Let_def)

lemma stepMinLength_eq:
  "(case q_min_length q of None \<Rightarrow> True | Some v \<Rightarrow> parseInt v \<noteq> NaN) \<Longrightarrow>
   stepMinLength q pr =
     Inr (filter (\<lambda>r. case q_min_length q of None \<Rightarrow> True
                     | Some v \<Rightarrow> geNum (length_f (properties r)) (parseInt v)) (fst pr),
          (snd pr)\<lparr>flt_min_length :=
             case q_min_length q of None \<Rightarrow> flt_min_length (snd pr)
             | Some v \<Rightarrow> Some (parseInt v)\<rparr>)"
  by (cases "q_min_length q") (simp_all add: stepMinLength_def isNaN_def keepMinLength_def Let_def)

lemma stepMaxLength_eq:
  "(case q_max_length q of None \<Rightarrow> True | Some v \<Rightarrow> parseInt v \<noteq> NaN) \<Longrightarrow>
   stepMaxLength q pr =
     Inr (filter (\<lambda>r. case q_max_length q of None \<Rightarrow> True
                     | Some v \<Rightarrow> leNum (length_f (properties r)) (parseInt v)) (fst pr),
          (snd pr)\<lparr>flt_max_length :=
             case q_max_length q of None \<Rightarrow> flt_max_length (snd pr)
             | Some v \<Rightarrow> Some (parseInt v)\<rparr>)"
  by (cases "q_max_length q") (simp_all add: stepMaxLength_def isNaN_def keepMaxLength_def Let_def)

lemma stepWordCount_eq:
  "(case q_word_count q of None \<Rightarrow> True | Some v \<Rightarrow> parseInt v \<noteq> NaN) \<Longrightarrow>
   stepWordCount q pr =
     Inr (filter (\<lambda>r. case q_word_count q of None \<Rightarrow> True
                     | Some v \<Rightarrow> eqNum (word_count (properties r)) (parseInt v)) (fst pr),
          (snd pr)\<lparr>flt_word_count :=
             case q_word_count q of None \<Rightarrow> flt_word_count (snd pr)
             | Some v \<Rightarrow> Some (parseInt v)\<rparr>)"
  by (cases "q_word_count q") (simp_all add: stepWordCount_def isNaN_def keepWordCount_def Let_def)

lemma stepContains_eq:
  "(case q_contains_character q of None \<Rightarrow> True | Some c \<Rightarrow> length c = 1) \<Longrightarrow>
   stepContains q pr =
     Inr (filter (\<lambda>r. case q_contains_character q of None \<Rightarrow> True
                     | Some c \<Rightarrow> includes_str (value_f r) c) (fst pr),
          (snd pr)\<lparr>flt_contains_character :=
             case q_contains_character q of None \<Rightarrow> flt_contains_character (snd pr)
             | Some c \<Rightarrow> Some c\<rparr>)"
  by (cases "q_contains_character q") (simp_all add: stepContains_def keepContains_def)

lemma getStrings_valid:
  assumes "validQuery q"
  shows "getStrings st q =
     \<lparr> status = 200,
       body = ListBody (filter (survives (requestedFilters q)) (getAllString st))
                (length (filter (survives (requestedFilters q)) (getAllString st)))
                (requestedFilters q) \<rparr>"
proof -
  let ?P = "\<lambda>r. (case q_is_palindrome q of None \<Rightarrow> True
                     | Some v \<Rightarrow> is_palindrome (properties r) = (v = js ''true''))
         \<and> (case q_min_length q of None \<Rightarrow> True
                     | Some v \<Rightarrow> geNum (length_f (properties r)) (parseInt v))
         \<and> (case q_max_length q of None \<Rightarrow> True
                     | Some v \<Rightarrow> leNum (length_f (properties r)) (parseInt v))
         \<and> (case q_word_count q of None \<Rightarrow> True
                     | Some v \<Rightarrow> eqNum (word_count (properties r)) (parseInt v))
         \<and> (case q_contains_character q of None \<Rightarrow> True
                     | Some c \<Rightarrow> includes_str (value_f r) c)"
  let ?R = "\<lparr> flt_is_palindrome = (case q_is_palindrome q of None \<Rightarrow> None
             | Some v \<Rightarrow> Some (v = js ''true'')),
       flt_min_length = (case q_min_length q of None \<Rightarrow> None | Some v \<Rightarrow> Some (parseInt v)),
       flt_max_length = (case q_max_length q of None \<Rightarrow> None | Some v \<Rightarrow> Some (parseInt v)),
       flt_word_count = (case q_word_count q of None \<Rightarrow> None | Some v \<Rightarrow> Some (parseInt v)),
       flt_contains_character = (case q_contains_character q of None \<Rightarrow> None
             | Some c \<Rightarrow> Some c) \<rparr>"
  have v: "case q_min_length q of None \<Rightarrow> True | Some v \<Rightarrow> parseInt v \<noteq> NaN"
      "case q_max_length q of None \<Rightarrow> True | Some v \<Rightarrow> parseInt v \<noteq> NaN"
      "case q_word_count q of None \<Rightarrow> True | Some v \<Rightarrow> parseInt v \<noteq> NaN"
      "case q_contains_character q of None \<Rightarrow> True | Some c \<Rightarrow> length c = 1"
    using assms by (simp_all add: validQuery_def)
  have s: "survives (requestedFilters q) = ?P"
    by (rule ext) (simp only: survives_def requestedFilters_def filters.simps case_of_map_option)
  have r: "requestedFilters q = ?R"
    by (simp add: requestedFilters_def case_map_option option.map_ident)
  have g: "getStrings st q =
     \<lparr> status = 200,
       body = ListBody (filter ?P (getAllString st)) (length (filter ?P (getAllString st))) ?R \<rparr>"
    unfolding getStrings_def andThen_def stepPalindrome_eq
    by (simp add: stepMinLength_eq [OF v(1)] stepMaxLength_eq [OF v(2)]
          stepWordCount_eq [OF v(3)] stepContains_eq [OF v(4)]
          noFilters_def conj_assoc cong: option.case_cong)
  show ?thesis unfolding g s unfolding r by (rule refl)
qed

lemma andThen_Inl: "andThen (Inl x) f = Inl x"
  by (simp add: andThen_def)

lemma andThen_Inr: "andThen (Inr x) f = f x"
  by (simp add: andThen_def)

lemma getStrings_invalid:
  assumes "\<not> validQuery q"
  shows "status (getStrings st q) = 400"
proof -
  let ?p1 = "stepPalindrome q (getAllString st, noFilters)"
  obtain x1 where p1: "?p1 = Inr x1" by (simp add: stepPalindrome_eq)
  show ?thesis
  proof (cases "case q_min_length q of None \<Rightarrow> True | Some v \<Rightarrow> parseInt v \<noteq> NaN")
    case False
    then have "stepMinLength q x1
               = Inl (badRequest ''Invalid min_length parameter: must be a number'')"
      by (cases "q_min_length q") (simp_all add: stepMinLength_def isNaN_def Let_def)
    then show ?thesis
      by (simp add: getStrings_def p1 andThen_Inl andThen_Inr badRequest_def)
  next
    case v1: True
    obtain x2 where p2: "stepMinLength q x1 = Inr x2" using v1 by (simp add: stepMinLength_eq)
    show ?thesis
    proof (cases "case q_max_length q of None \<Rightarrow> True | Some v \<Rightarrow> parseInt v \<noteq> NaN")
      case False
      then have "stepMaxLength q x2
                 = Inl (badRequest ''Invalid max_length parameter: must be a number'')"
        by (cases "q_max_length q") (simp_all add: stepMaxLength_def isNaN_def Let_def)
      then show ?thesis
        by (simp add: getStrings_def p1 p2 andThen_Inl andThen_Inr badRequest_def)
    next
      case v2: True
      obtain x3 where p3: "stepMaxLength q x2 = Inr x3" using v2 by (simp add: stepMaxLength_eq)
      show ?thesis
      proof (cases "case q_word_count q of None \<Rightarrow> True | Some v \<Rightarrow> parseInt v \<noteq> NaN")
        case False
        then have "stepWordCount q x3
                   = Inl (badRequest ''Invalid word_count parameter: must be a number'')"
          by (cases "q_word_count q") (simp_all add: stepWordCount_def isNaN_def Let_def)
        then show ?thesis
          by (simp add: getStrings_def p1 p2 p3 andThen_Inl andThen_Inr badRequest_def)
      next
        case v3: True
        obtain x4 where p4: "stepWordCount q x3 = Inr x4"
          using v3 by (simp add: stepWordCount_eq)
        have "\<not> (case q_contains_character q of None \<Rightarrow> True | Some c \<Rightarrow> length c = 1)"
          using assms v1 v2 v3 by (simp add: validQuery_def)
        then have "stepContains q x4 = Inl (badRequest
             ''Invalid contains_character parameter: must be a single character'')"
          by (cases "q_contains_character q") (simp_all add: stepContains_def)
        then show ?thesis
          by (simp add: getStrings_def p1 p2 p3 p4 andThen_Inl andThen_Inr badRequest_def)
      qed
    qed
  qed
qed

lemma four_entries:
  assumes "map g st = [a, b, c, d]"
  shows "\<exists>e1 e2 e3 e4. st = [e1, e2, e3, e4] \<and> g e1 = a \<and> g e2 = b \<and> g e3 = c \<and> g e4 = d"
  using assms by (auto simp: map_eq_Cons_conv)

lemma parseInt_5: "parseInt (js ''5'') = Num 5"
  by (simp add: parseInt_def js_def isSpace_def isRadixDigit_def isDigit_def radixValue_def
        digitValue_def toNumber_def roundMagnitude_def)

lemma parseInt_9: "parseInt (js ''9'') = Num 9"
  by (simp add: parseInt_def js_def isSpace_def isRadixDigit_def isDigit_def radixValue_def
        digitValue_def toNumber_def roundMagnitude_def)

lemma example_query:
  assumes "map (\<lambda>e. length_f (properties (snd e))) st = [3, 5, 7, 10]"
  shows "getStrings st (noQuery\<lparr>q_min_length := Some (js ''5''), q_max_length := Some (js ''9'')\<rparr>)
     = \<lparr> status = 200,
         body = ListBody [snd (st ! 1), snd (st ! 2)] 2
                  (noFilters\<lparr>flt_min_length := Some (Num 5), flt_max_length := Some (Num 9)\<rparr>) \<rparr>"
proof -
  let ?q = "noQuery\<lparr>q_min_length := Some (js ''5''), q_max_length := Some (js ''9'')\<rparr>"
  obtain e1 e2 e3 e4 where st: "st = [e1, e2, e3, e4]"
    and l: "length_f (properties (snd e1)) = 3" "length_f (properties (snd e2)) = 5"
       "length_f (properties (snd e3)) = 7" "length_f (properties (snd e4)) = 10"
    using four_entries [OF assms] by blast
  have v: "validQuery ?q"
    by (simp add: validQuery_def noQuery_def parseInt_5 parseInt_9)
  have r: "requestedFilters ?q
           = noFilters\<lparr>flt_min_length := Some (Num 5), flt_max_length := Some (Num 9)\<rparr>"
    by (simp add: requestedFilters_def noQuery_def noFilters_def parseInt_5 parseInt_9)
  have f: "filter (survives (requestedFilters ?q)) (getAllString st) = [snd e2, snd e3]"
    unfolding r by (simp add: survives_def noFilters_def getAllString_def st l)
  show ?thesis
    unfolding getStrings_valid [OF v] f unfolding r by (simp add: st)
qed


lemma keepPalindrome_opt:
  "(case x of None \<Rightarrow> xs | Some b \<Rightarrow> keepPalindrome b xs)
   = filter (\<lambda>r. case x of None \<Rightarrow> True | Some b \<Rightarrow> is_palindrome (properties r) = b) xs"
  by (cases x) (simp_all add: keepPalindrome_def)

lemma keepMinLength_opt:
  "(case x of None \<Rightarrow> xs | Some n \<Rightarrow> keepMinLength n xs)
   = filter (\<lambda>r. case x of None \<Rightarrow> True | Some n \<Rightarrow> geNum (length_f (properties r)) n) xs"
  by (cases x) (simp_all add: keepMinLength_def)

lemma keepMaxLength_opt:
  "(case x of None \<Rightarrow> xs | Some n \<Rightarrow> keepMaxLength n xs)
   = filter (\<lambda>r. case x of None \<Rightarrow> True | Some n \<Rightarrow> leNum (length_f (properties r)) n) xs"
  by (cases x) (simp_all add: keepMaxLength_def)

lemma keepWordCount_opt:
  "(case x of None \<Rightarrow> xs | Some n \<Rightarrow> keepWordCount n xs)
   = filter (\<lambda>r. case x of None \<Rightarrow> True | Some n \<Rightarrow> eqNum (word_count (properties r)) n) xs"
  by (cases x) (simp_all add: keepWordCount_def)

lemma keepContains_opt:
  "(case x of None \<Rightarrow> xs | Some c \<Rightarrow> keepContains c xs)
   = filter (\<lambda>r. case x of None \<Rightarrow> True | Some c \<Rightarrow> includes_str (value_f r) c) xs"
  by (cases x) (simp_all add: keepContains_def)

lemma keyCount_zero: "(keyCount f = 0) = (f = noFilters)"
  by (cases f) (auto simp: keyCount_def noFilters_def)

lemma nl_missing:
  "filterByNaturalLanguage u st None
     = \<lparr> status = 400, body = ErrorBody ''Query parameter is required'' \<rparr>
   \<and> filterByNaturalLanguage u st (Some [])
     = \<lparr> status = 400, body = ErrorBody ''Query parameter is required'' \<rparr>"
  by (simp add: filterByNaturalLanguage_def)

lemma nl_unparseable:
  "q \<noteq> [] \<Longrightarrow> parseNaturalLanguageQuery u q = noFilters \<Longrightarrow>
   filterByNaturalLanguage u st (Some q)
     = \<lparr> status = 400, body = ParseErrorBody ''Unable to parse natural language query'' q \<rparr>"
  by (simp add: filterByNaturalLanguage_def keyCount_zero)

lemma nl_parsed:
  assumes "q \<noteq> []" and "parseNaturalLanguageQuery u q \<noteq> noFilters"
  shows "filterByNaturalLanguage u st (Some q)
     = \<lparr> status = 200,
         body = InterpretedBody
           (filter (survives (parseNaturalLanguageQuery u q)) (getAllString st))
           (length (filter (survives (parseNaturalLanguageQuery u q)) (getAllString st)))
           q (parseNaturalLanguageQuery u q) \<rparr>"
  using assms unfolding filterByNaturalLanguage_def Let_def keyCount_zero
   keepPalindrome_opt keepMinLength_opt keepMaxLength_opt keepWordCount_opt keepContains_opt
   filter_filter survives_def
  by (simp add: conj_assoc)

lemma pattern9_none: "noVowelPhrase lq \<Longrightarrow> pattern9 lq f = f"
  by (simp add: noVowelPhrase_def pattern9_def vowelWords_def vowelStep_def)

lemma parse_no_match:
  "noPatternMatches (toLowerCase u q) \<Longrightarrow> parseNaturalLanguageQuery u q = noFilters"
  by (simp add: noPatternMatches_def parseNaturalLanguageQuery_def pattern1_def pattern2_def
       pattern3_def pattern4_def pattern5_def pattern6_def pattern7_def pattern8_def
       pattern9_none noVowelPhrase_def)

section \<open>Numbers and decimal numerals\<close>

lemma bitLength_pow: "bitLength (2 ^ k) = Suc k"
proof (induction k)
  case 0
  show ?case by (simp add: bitLength.simps [of "Suc 0"] bitLength.simps [of 0])
next
  case (Suc k)
  have "bitLength (2 ^ Suc k) = Suc (bitLength (2 ^ Suc k div 2))"
    by (subst bitLength.simps) simp
  then show ?case using Suc by simp
qed

lemma b53: "bitLength ((2::nat) ^ 53) = 54" using bitLength_pow [of 53] by simp


lemma roundMagnitude_le: "n \<le> 2 ^ 53 \<Longrightarrow> roundMagnitude n = n"
proof (cases "n < 2 ^ 53")
  case True
  then show ?thesis by (simp add: roundMagnitude_def)
next
  case False
  assume "n \<le> 2 ^ 53"
  then have n: "n = 2 ^ 53" using False by simp
  show ?thesis unfolding n roundMagnitude_def b53 by simp
qed


lemma toNumber_safe: "\<bar>i\<bar> \<le> 2 ^ 53 \<Longrightarrow> toNumber i = Num i"
proof -
  assume a: "\<bar>i\<bar> \<le> 2 ^ 53"
  have l: "nat \<bar>i\<bar> \<le> 2 ^ 53"
  proof -
    have "nat \<bar>i\<bar> \<le> nat (2 ^ 53)" using a by (rule nat_mono)
    then show ?thesis by simp
  qed
  have "nat \<bar>i\<bar> < 2 ^ 1024" using l by (rule le_less_trans) simp
  then have r: "\<not> 2 ^ 1024 \<le> nat \<bar>i\<bar>" by (rule iffD2 [OF not_le])
  have s: "(if i < 0 then - int (nat \<bar>i\<bar>) else int (nat \<bar>i\<bar>)) = i" by simp
  show ?thesis unfolding toNumber_def Let_def roundMagnitude_le [OF l] if_not_P [OF r] s ..
qed

lemma plus_one_safe: "n < 2 ^ 53 \<Longrightarrow> toNumber (int n + 1) = Num (int n + 1)"
proof (rule toNumber_safe)
  assume "n < 2 ^ 53"
  then have "n < 9007199254740992" by simp
  then show "\<bar>int n + 1\<bar> \<le> 2 ^ 53" by simp
qed

lemma minus_one_safe: "n < 2 ^ 53 \<Longrightarrow> toNumber (int n - 1) = Num (int n - 1)"
proof (rule toNumber_safe)
  assume "n < 2 ^ 53"
  then have "n < 9007199254740992" by simp
  then show "\<bar>int n - 1\<bar> \<le> 2 ^ 53" by simp
qed

lemma toNumber_nat_safe: "n < 2 ^ 53 \<Longrightarrow> toNumber (int n) = Num (int n)"
proof (rule toNumber_safe)
  assume "n < 2 ^ 53"
  then have "n < 9007199254740992" by simp
  then show "\<bar>int n\<bar> \<le> 2 ^ 53" by simp
qed

lemma digit_unat: "n < 10 \<Longrightarrow> unat (0x30 + of_nat n :: 16 word) = 48 + n"
  by (simp add: unat_word_ariths unat_of_nat)

lemma digit_isDigit: "n < 10 \<Longrightarrow> isDigit (0x30 + of_nat n)"
  by (simp add: isDigit_def word_le_nat_alt digit_unat)

lemma digit_value: "n < 10 \<Longrightarrow> digitValue (0x30 + of_nat n) = n"
  by (simp add: digitValue_def digit_isDigit digit_unat)

lemma decimal_digits: "list_all isDigit (decimal n)"
proof (induction n rule: decimal.induct)
  case (1 n)
  show ?case
  proof (cases "n < 10")
    case True
    then show ?thesis by (simp add: decimal.simps [of n] digit_isDigit)
  next
    case False
    then show ?thesis using 1 by (simp add: decimal.simps [of n] digit_isDigit)
  qed
qed

lemma decimal_nonempty: "decimal n \<noteq> []"
  by (simp add: decimal.simps [of n])

lemma radixValue_decimal: "radixValue 10 (decimal n) = n"
proof (induction n rule: decimal.induct)
  case (1 n)
  show ?case
  proof (cases "n < 10")
    case True
    then show ?thesis by (simp add: decimal.simps [of n] radixValue_def digit_value)
  next
    case False
    then have "radixValue 10 (decimal (n div 10)) = n div 10" using 1 by simp
    then show ?thesis using False
      by (simp add: decimal.simps [of n] radixValue_def digit_value)
  qed
qed

lemma digit_not_space: "isDigit c \<Longrightarrow> \<not> isSpace c"
  by (auto simp: isDigit_def isSpace_def word_le_nat_alt)

lemma parseInt_digits:
  assumes d: "list_all isDigit ds" and ne: "ds \<noteq> []"
  shows "parseInt ds = toNumber (int (radixValue 10 ds))"
proof -
  obtain c cs where ds: "ds = c # cs" using ne by (cases ds) auto
  have c: "isDigit c" and cs: "list_all isDigit cs" using d ds by auto
  have s1: "dropWhile isSpace ds = ds" using c ds by (simp add: digit_not_space)
  have sign: "hd ds \<noteq> 0x2D" "hd ds \<noteq> 0x2B" using c ds by (auto simp: isDigit_def)
  have nohex: "\<not> startsWith ds [0x30, 0x78]" "\<not> startsWith ds [0x30, 0x58]"
    using cs ds by (cases cs; auto simp: isDigit_def)+
  have tw: "takeWhile (isRadixDigit 10) ds = ds"
    using d by (simp add: isRadixDigit_def list_all_iff)
  show ?thesis
    by (simp add: parseInt_def s1 Let_def sign nohex tw ne)
qed

lemma parseInt_decimal: "n < 2 ^ 53 \<Longrightarrow> parseInt (decimal n) = Num (int n)"
  by (simp add: parseInt_digits decimal_digits decimal_nonempty radixValue_decimal toNumber_nat_safe)

section \<open>Matching a phrase with a number in it\<close>

lemma digit_isAscii: "isDigit c \<Longrightarrow> isAscii c"
  by (auto simp: isDigit_def isAscii_def word_le_nat_alt word_less_nat_alt)

lemma digit_lower: "isDigit c \<Longrightarrow> asciiLower c = c"
  by (auto simp: isDigit_def asciiLower_def word_le_nat_alt)

lemma toLowerCase_phrase:
  assumes "list_all isAscii pre" and "list_all isDigit ds" and "list_all isAscii suf"
  shows "toLowerCase u (pre @ ds @ suf) = map asciiLower pre @ ds @ map asciiLower suf"
proof -
  have a: "list_all (\<lambda>c. isAscii c \<or> isSpace c) (pre @ ds @ suf)"
    using assms by (auto simp: list_all_iff digit_isAscii)
  have "map asciiLower ds = ds"
    using assms(2) by (induction ds) (simp_all add: digit_lower)
  then show ?thesis using a by (simp add: toLowerCase_def)
qed

lemma startsWith_digits:
  "list_all isDigit ds \<Longrightarrow> ds \<noteq> [] \<Longrightarrow> \<not> isDigit c \<Longrightarrow> startsWith (ds @ suf) (c # ts) = False"
  by (cases ds) auto

lemma includes_digits:
  "list_all isDigit ds \<Longrightarrow> \<not> isDigit c \<Longrightarrow>
   includes_str (ds @ suf) (c # ts) = includes_str suf (c # ts)"
  by (induction ds) auto

lemma match_skip_digits:
  assumes r: "\<And>d s. isDigit d \<Longrightarrow> run r ([], d # s) = []"
    and d: "list_all isDigit ds"
  shows "match_rx r (ds @ suf) = match_rx r suf"
  using d by (induction ds) (simp_all add: r)

lemma upt_rev_Suc: "0 < n \<Longrightarrow> rev [1..<Suc n] = n # rev [1..<n]"
  by simp

lemma takeWhile_digits:
  assumes "list_all isDigit ds" and "suf = [] \<or> \<not> isDigit (hd suf)"
  shows "takeWhile isDigit (ds @ suf) = ds"
proof -
  have "takeWhile isDigit suf = []" using assms(2) by (cases suf) auto
  then show ?thesis using assms(1) by (simp add: takeWhile_append2 list_all_iff)
qed

lemma run_cap_digits:
  assumes d: "list_all isDigit ds" and ne: "ds \<noteq> []"
    and s: "suf = [] \<or> \<not> isDigit (hd suf)"
  shows "run (Cap i (PlusCls isDigit)) (caps, ds @ suf) =
     ((i, ds) # caps, suf) #
     map (\<lambda>(caps', rest). ((i, take (length (ds @ suf) - length rest) (ds @ suf)) # caps', rest))
       (map (\<lambda>k. (caps, drop k (ds @ suf))) (rev [1..<length ds]))"
proof -
  have n: "0 < length ds" using ne by simp
  show ?thesis
    unfolding run.simps takeWhile_digits [OF d s] upt_rev_Suc [OF n]
    by simp
qed

lemma isDigit_numeral:
  "isDigit (numeral k) = (0x30 \<le> (numeral k :: 16 word) \<and> (numeral k :: 16 word) \<le> 0x39)"
  by (simp add: isDigit_def)

lemma startsWith_digit:
  "isDigit d \<Longrightarrow> startsWith (d # s) (c # t) = (isDigit c \<and> d = c \<and> startsWith s t)"
  by auto

lemma no_digit_start:
  assumes "isDigit d"
  shows "run longerThanRx (caps, d # s) = []"
    and "run shorterThanRx (caps, d # s) = []"
    and "run atLeastRx (caps, d # s) = []"
    and "run letterRx (caps, d # s) = []"
    and "run containsRx (caps, d # s) = []"
  using assms
  by (simp_all add: longerThanRx_def shorterThanRx_def atLeastRx_def letterRx_def
        containsRx_def js_def startsWith_digit isDigit_numeral del: startsWith.simps)

lemma skip_longer:
  "list_all isDigit ds \<Longrightarrow> match_rx longerThanRx (ds @ suf) = match_rx longerThanRx suf"
  by (rule match_skip_digits) (simp_all add: no_digit_start)

lemma skip_shorter:
  "list_all isDigit ds \<Longrightarrow> match_rx shorterThanRx (ds @ suf) = match_rx shorterThanRx suf"
  by (rule match_skip_digits) (simp_all add: no_digit_start)

lemma skip_atLeast:
  "list_all isDigit ds \<Longrightarrow> match_rx atLeastRx (ds @ suf) = match_rx atLeastRx suf"
  by (rule match_skip_digits) (simp_all add: no_digit_start)

lemma skip_letter:
  "list_all isDigit ds \<Longrightarrow> match_rx letterRx (ds @ suf) = match_rx letterRx suf"
  by (rule match_skip_digits) (simp_all add: no_digit_start)

lemma skip_contains:
  "list_all isDigit ds \<Longrightarrow> match_rx containsRx (ds @ suf) = match_rx containsRx suf"
  by (rule match_skip_digits) (simp_all add: no_digit_start)


lemmas run_rx =
  arg_cong [where f = run, OF longerThanRx_def] arg_cong [where f = run, OF shorterThanRx_def]
  arg_cong [where f = run, OF atLeastRx_def] arg_cong [where f = run, OF letterRx_def]
  arg_cong [where f = run, OF containsRx_def]

lemmas skip_rx = skip_longer skip_shorter skip_atLeast skip_letter skip_contains

lemma match_nil:
  "match_rx longerThanRx [] = None" "match_rx shorterThanRx [] = None"
  "match_rx atLeastRx [] = None" "match_rx letterRx [] = None" "match_rx containsRx [] = None"
  by (simp_all add: js_def run_rx)

lemma skip_rx_nil:
  assumes "list_all isDigit ds"
  shows "match_rx longerThanRx ds = None" "match_rx shorterThanRx ds = None"
    "match_rx atLeastRx ds = None" "match_rx letterRx ds = None"
    "match_rx containsRx ds = None"
proof -
  show "match_rx longerThanRx ds = None"
    using skip_longer [OF assms, of "[]"] by (simp only: append_Nil2 match_nil)
  show "match_rx shorterThanRx ds = None"
    using skip_shorter [OF assms, of "[]"] by (simp only: append_Nil2 match_nil)
  show "match_rx atLeastRx ds = None"
    using skip_atLeast [OF assms, of "[]"] by (simp only: append_Nil2 match_nil)
  show "match_rx letterRx ds = None"
    using skip_letter [OF assms, of "[]"] by (simp only: append_Nil2 match_nil)
  show "match_rx containsRx ds = None"
    using skip_contains [OF assms, of "[]"] by (simp only: append_Nil2 match_nil)
qed

lemma run_cap_digits_nil:
  assumes d: "list_all isDigit ds" and ne: "ds \<noteq> []"
  shows "run (Cap i (PlusCls isDigit)) (caps, ds) =
     ((i, ds) # caps, []) #
     map (\<lambda>(caps', rest). ((i, take (length ds - length rest) ds) # caps', rest))
       (map (\<lambda>k. (caps, drop k ds)) (rev [1..<length ds]))"
  using run_cap_digits [OF d ne, of "[]" i caps] by simp

lemma includes_digits_nil:
  "list_all isDigit ds \<Longrightarrow> \<not> isDigit c \<Longrightarrow> includes_str ds (c # ts) = False"
  using includes_digits [of ds c "[]" ts] by simp

lemma startsWith_digits_nil:
  "list_all isDigit ds \<Longrightarrow> ds \<noteq> [] \<Longrightarrow> \<not> isDigit c \<Longrightarrow> startsWith ds (c # ts) = False"
  using startsWith_digits [of ds c "[]" ts] by simp

lemmas phrase_eval = js_def run_rx skip_rx skip_rx_nil run_cap_digits run_cap_digits_nil
  isDigit_numeral

lemmas includes_eval = js_def includes_digits includes_digits_nil startsWith_digits
  startsWith_digits_nil isDigit_numeral noVowelPhrase_def vowelWords_def

lemma parse_length_only:
  assumes "toLowerCase u q = lq"
    and "\<not> includes_str lq (js ''palindrom'')"
    and "\<not> includes_str lq (js ''single word'')" and "\<not> includes_str lq (js ''one word'')"
    and "\<not> includes_str lq (js ''two word'')" and "\<not> includes_str lq (js ''double word'')"
    and "match_rx atLeastRx lq = None" and "match_rx letterRx lq = None"
    and "match_rx containsRx lq = None" and "noVowelPhrase lq"
  shows "parseNaturalLanguageQuery u q = pattern5 lq (pattern4 lq noFilters)"
  using assms
  by (simp add: parseNaturalLanguageQuery_def pattern1_def pattern2_def pattern3_def
        pattern6_def pattern7_def pattern8_def pattern9_none)

lemma numSub_safe: "n < 2 ^ 53 \<Longrightarrow> numSub (Num (int n)) (Num 1) = Num (int n - 1)"
  using minus_one_safe [of n] by (simp add: numSub_def)

lemma pattern4_captured:
  assumes "match_rx longerThanRx lq = Some caps"
    and "orElse (group caps 1) (group caps 2) = Some (decimal n)" and "n < 2 ^ 53"
  shows "pattern4 lq f = f\<lparr>flt_min_length := Some (Num (int n + 1))\<rparr>"
  using assms by (simp add: pattern4_def parseIntArg_def parseInt_decimal plus_one_safe)

lemma pattern5_captured:
  assumes "match_rx shorterThanRx lq = Some caps"
    and "orElse (group caps 1) (group caps 2) = Some (decimal n)" and "n < 2 ^ 53"
  shows "pattern5 lq f = f\<lparr>flt_max_length := Some (Num (int n - 1))\<rparr>"
  using assms by (simp add: pattern5_def parseIntArg_def parseInt_decimal numSub_safe)

lemma orElse_first: "s \<noteq> [] \<Longrightarrow> orElse (Some s) b = Some s"
  by (cases s) (simp_all add: orElse_def)

lemma orElse_second: "orElse None b = b"
  by (simp add: orElse_def)

lemma ascii_literals:
  "list_all isAscii (js ''longer than '')" "list_all isAscii (js ''more than '')"
  "list_all isAscii (js ''shorter than '')" "list_all isAscii (js ''less than '')"
  "list_all isAscii (js '' character'')" "list_all isAscii (js '' characters'')"
  "list_all isAscii []"
  by (simp_all add: js_def isAscii_def)

lemma lower_literals:
  "map asciiLower (js ''longer than '') = js ''longer than ''"
  "map asciiLower (js ''more than '') = js ''more than ''"
  "map asciiLower (js ''shorter than '') = js ''shorter than ''"
  "map asciiLower (js ''less than '') = js ''less than ''"
  "map asciiLower (js '' character'') = js '' character''"
  "map asciiLower (js '' characters'') = js '' characters''"
  by (simp_all add: js_def asciiLower_def)


lemma longer_than_phrase:
  assumes n: "n < 2 ^ 53"
  shows "parseNaturalLanguageQuery u (js ''longer than '' @ decimal n)
         = noFilters\<lparr>flt_min_length := Some (Num (int n + 1))\<rparr>"
proof -
  let ?lq = "js ''longer than '' @ decimal n"
  have d: "list_all isDigit (decimal n)" "decimal n \<noteq> []"
    by (simp_all add: decimal_digits decimal_nonempty)
  have lq: "toLowerCase u ?lq = ?lq"
    using toLowerCase_phrase [OF ascii_literals(1) d(1) ascii_literals(7), of u]
    by (simp add: lower_literals)
  have inc: "\<not> includes_str ?lq (js ''palindrom'')" "\<not> includes_str ?lq (js ''single word'')"
    "\<not> includes_str ?lq (js ''one word'')" "\<not> includes_str ?lq (js ''two word'')"
    "\<not> includes_str ?lq (js ''double word'')" "noVowelPhrase ?lq"
    using d by (simp_all add: includes_eval)
  have m: "match_rx longerThanRx ?lq = Some [(1, decimal n)]"
    "match_rx shorterThanRx ?lq = None"
    "match_rx atLeastRx ?lq = None"
    "match_rx letterRx ?lq = None" "match_rx containsRx ?lq = None"
    using d by (simp_all add: phrase_eval del: run.simps(7))
  have g: "orElse (group [(1, decimal n)] 1) (group [(1, decimal n)] 2) = Some (decimal n)"
    using d by (simp add: group_def orElse_first orElse_second)
  have "parseNaturalLanguageQuery u ?lq = pattern5 ?lq (pattern4 ?lq noFilters)"
    by (rule parse_length_only [OF lq inc(1-5) m(3-5) inc(6)])
  also have "\<dots> = noFilters\<lparr>flt_min_length := Some (Num (int n + 1))\<rparr>"
    by (simp add: pattern4_captured [OF m(1) g n] pattern5_def m(2))
  finally show ?thesis .
qed

lemma more_than_character_phrase:
  assumes n: "n < 2 ^ 53"
  shows "parseNaturalLanguageQuery u (js ''more than '' @ decimal n @ js '' character'')
         = noFilters\<lparr>flt_min_length := Some (Num (int n + 1))\<rparr>"
proof -
  let ?lq = "js ''more than '' @ decimal n @ js '' character''"
  have d: "list_all isDigit (decimal n)" "decimal n \<noteq> []"
    by (simp_all add: decimal_digits decimal_nonempty)
  have lq: "toLowerCase u ?lq = ?lq"
    using toLowerCase_phrase [OF ascii_literals(2) d(1) ascii_literals(5), of u]
    by (simp add: lower_literals)
  have inc: "\<not> includes_str ?lq (js ''palindrom'')" "\<not> includes_str ?lq (js ''single word'')"
    "\<not> includes_str ?lq (js ''one word'')" "\<not> includes_str ?lq (js ''two word'')"
    "\<not> includes_str ?lq (js ''double word'')" "noVowelPhrase ?lq"
    using d by (simp_all add: includes_eval)
  have m: "match_rx longerThanRx ?lq = Some [(2, decimal n)]"
    "match_rx shorterThanRx ?lq = None"
    "match_rx atLeastRx ?lq = None"
    "match_rx letterRx ?lq = None" "match_rx containsRx ?lq = None"
    using d by (simp_all add: phrase_eval del: run.simps(7))
  have g: "orElse (group [(2, decimal n)] 1) (group [(2, decimal n)] 2) = Some (decimal n)"
    using d by (simp add: group_def orElse_first orElse_second)
  have "parseNaturalLanguageQuery u ?lq = pattern5 ?lq (pattern4 ?lq noFilters)"
    by (rule parse_length_only [OF lq inc(1-5) m(3-5) inc(6)])
  also have "\<dots> = noFilters\<lparr>flt_min_length := Some (Num (int n + 1))\<rparr>"
    by (simp add: pattern4_captured [OF m(1) g n] pattern5_def m(2))
  finally show ?thesis .
qed

lemma more_than_characters_phrase:
  assumes n: "n < 2 ^ 53"
  shows "parseNaturalLanguageQuery u (js ''more than '' @ decimal n @ js '' characters'')
         = noFilters\<lparr>flt_min_length := Some (Num (int n + 1))\<rparr>"
proof -
  let ?lq = "js ''more than '' @ decimal n @ js '' characters''"
  have d: "list_all isDigit (decimal n)" "decimal n \<noteq> []"
    by (simp_all add: decimal_digits decimal_nonempty)
  have lq: "toLowerCase u ?lq = ?lq"
    using toLowerCase_phrase [OF ascii_literals(2) d(1) ascii_literals(6), of u]
    by (simp add: lower_literals)
  have inc: "\<not> includes_str ?lq (js ''palindrom'')" "\<not> includes_str ?lq (js ''single word'')"
    "\<not> includes_str ?lq (js ''one word'')" "\<not> includes_str ?lq (js ''two word'')"
    "\<not> includes_str ?lq (js ''double word'')" "noVowelPhrase ?lq"
    using d by (simp_all add: includes_eval)
  have m: "match_rx longerThanRx ?lq = Some [(2, decimal n)]"
    "match_rx shorterThanRx ?lq = None"
    "match_rx atLeastRx ?lq = None"
    "match_rx letterRx ?lq = None" "match_rx containsRx ?lq = None"
    using d by (simp_all add: phrase_eval del: run.simps(7))
  have g: "orElse (group [(2, decimal n)] 1) (group [(2, decimal n)] 2) = Some (decimal n)"
    using d by (simp add: group_def orElse_first orElse_second)
  have "parseNaturalLanguageQuery u ?lq = pattern5 ?lq (pattern4 ?lq noFilters)"
    by (rule parse_length_only [OF lq inc(1-5) m(3-5) inc(6)])
  also have "\<dots> = noFilters\<lparr>flt_min_length := Some (Num (int n + 1))\<rparr>"
    by (simp add: pattern4_captured [OF m(1) g n] pattern5_def m(2))
  finally show ?thesis .
qed

lemma shorter_than_phrase:
  assumes n: "n < 2 ^ 53"
  shows "parseNaturalLanguageQuery u (js ''shorter than '' @ decimal n)
         = noFilters\<lparr>flt_max_length := Some (Num (int n - 1))\<rparr>"
proof -
  let ?lq = "js ''shorter than '' @ decimal n"
  have d: "list_all isDigit (decimal n)" "decimal n \<noteq> []"
    by (simp_all add: decimal_digits decimal_nonempty)
  have lq: "toLowerCase u ?lq = ?lq"
    using toLowerCase_phrase [OF ascii_literals(3) d(1) ascii_literals(7), of u]
    by (simp add: lower_literals)
  have inc: "\<not> includes_str ?lq (js ''palindrom'')" "\<not> includes_str ?lq (js ''single word'')"
    "\<not> includes_str ?lq (js ''one word'')" "\<not> includes_str ?lq (js ''two word'')"
    "\<not> includes_str ?lq (js ''double word'')" "noVowelPhrase ?lq"
    using d by (simp_all add: includes_eval)
  have m: "match_rx longerThanRx ?lq = None"
    "match_rx shorterThanRx ?lq = Some [(1, decimal n)]"
    "match_rx atLeastRx ?lq = None"
    "match_rx letterRx ?lq = None" "match_rx containsRx ?lq = None"
    using d by (simp_all add: phrase_eval del: run.simps(7))
  have g: "orElse (group [(1, decimal n)] 1) (group [(1, decimal n)] 2) = Some (decimal n)"
    using d by (simp add: group_def orElse_first orElse_second)
  have "parseNaturalLanguageQuery u ?lq = pattern5 ?lq (pattern4 ?lq noFilters)"
    by (rule parse_length_only [OF lq inc(1-5) m(3-5) inc(6)])
  also have "\<dots> = noFilters\<lparr>flt_max_length := Some (Num (int n - 1))\<rparr>"
    by (simp add: pattern5_captured [OF m(2) g n] pattern4_def m(1))
  finally show ?thesis .
qed

lemma less_than_character_phrase:
  assumes n: "n < 2 ^ 53"
  shows "parseNaturalLanguageQuery u (js ''less than '' @ decimal n @ js '' character'')
         = noFilters\<lparr>flt_max_length := Some (Num (int n - 1))\<rparr>"
proof -
  let ?lq = "js ''less than '' @ decimal n @ js '' character''"
  have d: "list_all isDigit (decimal n)" "decimal n \<noteq> []"
    by (simp_all add: decimal_digits decimal_nonempty)
  have lq: "toLowerCase u ?lq = ?lq"
    using toLowerCase_phrase [OF ascii_literals(4) d(1) ascii_literals(5), of u]
    by (simp add: lower_literals)
  have inc: "\<not> includes_str ?lq (js ''palindrom'')" "\<not> includes_str ?lq (js ''single word'')"
    "\<not> includes_str ?lq (js ''one word'')" "\<not> includes_str ?lq (js ''two word'')"
    "\<not> includes_str ?lq (js ''double word'')" "noVowelPhrase ?lq"
    using d by (simp_all add: includes_eval)
  have m: "match_rx longerThanRx ?lq = None"
    "match_rx shorterThanRx ?lq = Some [(2, decimal n)]"
    "match_rx atLeastRx ?lq = None"
    "match_rx letterRx ?lq = None" "match_rx containsRx ?lq = None"
    using d by (simp_all add: phrase_eval del: run.simps(7))
  have g: "orElse (group [(2, decimal n)] 1) (group [(2, decimal n)] 2) = Some (decimal n)"
    using d by (simp add: group_def orElse_first orElse_second)
  have "parseNaturalLanguageQuery u ?lq = pattern5 ?lq (pattern4 ?lq noFilters)"
    by (rule parse_length_only [OF lq inc(1-5) m(3-5) inc(6)])
  also have "\<dots> = noFilters\<lparr>flt_max_length := Some (Num (int n - 1))\<rparr>"
    by (simp add: pattern5_captured [OF m(2) g n] pattern4_def m(1))
  finally show ?thesis .
qed

lemma less_than_characters_phrase:
  assumes n: "n < 2 ^ 53"
  shows "parseNaturalLanguageQuery u (js ''less than '' @ decimal n @ js '' characters'')
         = noFilters\<lparr>flt_max_length := Some (Num (int n - 1))\<rparr>"
proof -
  let ?lq = "js ''less than '' @ decimal n @ js '' characters''"
  have d: "list_all isDigit (decimal n)" "decimal n \<noteq> []"
    by (simp_all add: decimal_digits decimal_nonempty)
  have lq: "toLowerCase u ?lq = ?lq"
    using toLowerCase_phrase [OF ascii_literals(4) d(1) ascii_literals(6), of u]
    by (simp add: lower_literals)
  have inc: "\<not> includes_str ?lq (js ''palindrom'')" "\<not> includes_str ?lq (js ''single word'')"
    "\<not> includes_str ?lq (js ''one word'')" "\<not> includes_str ?lq (js ''two word'')"
    "\<not> includes_str ?lq (js ''double word'')" "noVowelPhrase ?lq"
    using d by (simp_all add: includes_eval)
  have m: "match_rx longerThanRx ?lq = None"
    "match_rx shorterThanRx ?lq = Some [(2, decimal n)]"
    "match_rx atLeastRx ?lq = None"
    "match_rx letterRx ?lq = None" "match_rx containsRx ?lq = None"
    using d by (simp_all add: phrase_eval del: run.simps(7))
  have g: "orElse (group [(2, decimal n)] 1) (group [(2, decimal n)] 2) = Some (decimal n)"
    using d by (simp add: group_def orElse_first orElse_second)
  have "parseNaturalLanguageQuery u ?lq = pattern5 ?lq (pattern4 ?lq noFilters)"
    by (rule parse_length_only [OF lq inc(1-5) m(3-5) inc(6)])
  also have "\<dots> = noFilters\<lparr>flt_max_length := Some (Num (int n - 1))\<rparr>"
    by (simp add: pattern5_captured [OF m(2) g n] pattern4_def m(1))
  finally show ?thesis .
qed

section \<open>The translator on concrete queries\<close>

lemmas translator_eval = parseNaturalLanguageQuery_def toLowerCase_def js_def isAscii_def
  asciiLower_def pattern1_def pattern2_def pattern3_def pattern4_def pattern5_def pattern6_def
  pattern7_def pattern8_def pattern9_def vowelStep_def vowels_def vowelWords_def noFilters_def
  longerThanRx_def shorterThanRx_def atLeastRx_def letterRx_def containsRx_def
  isSpace_def isDigit_def isLowerLetter_def group_def orElse_def parseIntArg_def
  parseInt_def isRadixDigit_def radixValue_def digitValue_def toNumber_def roundMagnitude_def
  numSub_def

lemma lower_xyz: "toLowerCase u (js ''xyz'') = js ''xyz''"
  by (simp add: toLowerCase_def js_def isAscii_def asciiLower_def)

lemma no_match_xyz: "noPatternMatches (js ''xyz'')"
  by (simp add: noPatternMatches_def translator_eval)

lemma parse_empty: "parseNaturalLanguageQuery u [] = noFilters"
  by (simp add: translator_eval)

lemma parse_palindromic:
  "parseNaturalLanguageQuery u (js ''palindromic strings'')
   = noFilters\<lparr>flt_is_palindrome := Some True\<rparr>"
  by (simp add: translator_eval)

lemma parse_longer_10:
  "parseNaturalLanguageQuery u (js ''strings longer than 10 characters'')
   = noFilters\<lparr>flt_min_length := Some (Num 11)\<rparr>"
  by (simp add: translator_eval)

lemma lower_letter_query:
  "toLowerCase u (js ''with the letter a contains b'') = js ''with the letter a contains b''"
  by (simp add: toLowerCase_def js_def isAscii_def asciiLower_def)

lemma match_letter_query:
  "match_rx letterRx (js ''with the letter a contains b'') = Some [(2, js ''a'')]"
  by (simp add: js_def letterRx_def isSpace_def isLowerLetter_def)

lemma match_contains_query:
  "match_rx containsRx (js ''with the letter a contains b'') = Some [(1, js ''b'')]"
  by (simp add: js_def containsRx_def isSpace_def isLowerLetter_def)

lemma parse_letter_query:
  "parseNaturalLanguageQuery u (js ''with the letter a contains b'')
   = noFilters\<lparr>flt_contains_character := Some (js ''b'')\<rparr>"
  by (simp add: translator_eval)

lemma b54: "bitLength 9007199254740992 = 54"
  using bitLength_pow [of 53] by simp

lemma bitLength_above: "bitLength 9007199254740993 = 54"
  using bitLength_pow [of 52] by (subst bitLength.simps) simp

lemma parse_longer_2_53:
  "parseNaturalLanguageQuery u (js ''longer than 9007199254740992'')
   = noFilters\<lparr>flt_min_length := Some (Num 9007199254740992)\<rparr>"
  by (simp add: translator_eval b54 bitLength_above)

section \<open>What each pattern contributes\<close>

lemma pattern9_min: "flt_min_length (pattern9 lq f) = flt_min_length f"
  and pattern9_max: "flt_max_length (pattern9 lq f) = flt_max_length f"
  by (simp_all add: pattern9_def vowelWords_def vowelStep_def)

lemma pattern78_min: "flt_min_length (pattern8 lq (pattern7 lq f)) = flt_min_length f"
  and pattern78_max: "flt_max_length (pattern8 lq (pattern7 lq f)) = flt_max_length f"
  by (simp_all add: pattern7_def pattern8_def split: option.splits)

lemma pattern6_max: "flt_max_length (pattern6 lq f) = flt_max_length f"
  by (simp add: pattern6_def split: option.splits)

lemma pattern6_none_min: "match_rx atLeastRx lq = None \<Longrightarrow> pattern6 lq f = f"
  by (simp add: pattern6_def)

lemma pattern5_min: "flt_min_length (pattern5 lq f) = flt_min_length f"
  by (simp add: pattern5_def Let_def split: option.splits)

lemma min_length_rule:
  assumes "match_rx longerThanRx (toLowerCase u q) = Some caps"
    and "orElse (group caps 1) (group caps 2) = Some (decimal n)"
    and "match_rx atLeastRx (toLowerCase u q) = None" and "n < 2 ^ 53"
  shows "flt_min_length (parseNaturalLanguageQuery u q) = Some (Num (int n + 1))"
  unfolding parseNaturalLanguageQuery_def Let_def pattern9_min pattern78_min
    pattern6_none_min [OF assms(3)] pattern5_min pattern4_captured [OF assms(1,2,4)]
  by simp

lemma max_length_rule:
  assumes "match_rx shorterThanRx (toLowerCase u q) = Some caps"
    and "orElse (group caps 1) (group caps 2) = Some (decimal n)" and "n < 2 ^ 53"
  shows "flt_max_length (parseNaturalLanguageQuery u q) = Some (Num (int n - 1))"
  unfolding parseNaturalLanguageQuery_def Let_def pattern9_max pattern78_max
    pattern6_max pattern5_captured [OF assms(1,2,3)]
  by simp

lemma patterns16_contains:
  "flt_contains_character (pattern6 lq (pattern5 lq (pattern4 lq (pattern3 lq
     (pattern2 lq (pattern1 lq noFilters)))))) = None"
  by (simp add: pattern1_def pattern2_def pattern3_def pattern4_def pattern5_def pattern6_def
        noFilters_def Let_def split: option.splits)

lemma contains_rule8:
  assumes "noVowelPhrase (toLowerCase u q)"
    and "match_rx containsRx (toLowerCase u q) = Some cm"
  shows "flt_contains_character (parseNaturalLanguageQuery u q) = group cm 1"
  unfolding parseNaturalLanguageQuery_def Let_def pattern9_none [OF assms(1)]
  by (simp add: pattern8_def assms(2))

lemma contains_rule7:
  assumes "noVowelPhrase (toLowerCase u q)"
    and "match_rx containsRx (toLowerCase u q) = None"
    and "match_rx letterRx (toLowerCase u q) = Some lm"
  shows "flt_contains_character (parseNaturalLanguageQuery u q)
         = orElse (group lm 1) (group lm 2)"
  unfolding parseNaturalLanguageQuery_def Let_def pattern9_none [OF assms(1)]
  by (simp add: pattern8_def pattern7_def assms(2,3))

lemma match_rx_run:
  "match_rx r s = Some cm \<Longrightarrow> \<exists>s' st. st \<in> set (run r ([], s')) \<and> fst st = cm"
proof (induction r s rule: match_rx.induct)
  case (1 r)
  show ?case
  proof (cases "run r ([], [])")
    case Nil
    then show ?thesis using 1 by simp
  next
    case (Cons st sts)
    then have "fst st = cm" using 1 by simp
    moreover have "st \<in> set (run r ([], []))" using Cons by simp
    ultimately show ?thesis by blast
  qed
next
  case (2 r c cs)
  show ?case
  proof (cases "run r ([], c # cs)")
    case Nil
    then show ?thesis using 2 by simp
  next
    case (Cons st sts)
    then have "fst st = cm" using 2 by simp
    moreover have "st \<in> set (run r ([], c # cs))" using Cons by simp
    ultimately show ?thesis by blast
  qed
qed

lemma run_Seq_mem: "(st \<in> set (run (Seq a b) x)) = (\<exists>y\<in>set (run a x). st \<in> set (run b y))"
  by simp

lemma run_contains_capture:
  assumes "st \<in> set (run containsRx ([], s))"
  shows "\<exists>c. isLowerLetter c \<and> fst st = [(1, [c])]"
proof -
  let ?tail = "Seq (PlusCls isSpace) (Seq (Cap 1 (Cls isLowerLetter)) (Seq Eol Eps))"
  let ?opt = "Opt (Alt (Str (js ''ing'')) (Str (js ''s'')))"
  have t: "\<And>x s0. x \<in> set (run ?tail ([], s0)) \<Longrightarrow> \<exists>c. isLowerLetter c \<and> fst x = [(1, [c])]"
    by (auto split: list.splits if_splits)
  have o: "\<And>x s0. x \<in> set (run ?opt ([], s0)) \<Longrightarrow> fst x = []"
    by (auto split: if_splits)
  have h: "\<And>x s0. x \<in> set (run (Str (js ''contain'')) ([], s0)) \<Longrightarrow> fst x = []"
    by (auto split: if_splits)
  have "st \<in> set (run (Seq (Str (js ''contain'')) (Seq ?opt ?tail)) ([], s))"
    using assms by (simp only: containsRx_def seqs.simps)
  then obtain x1 where x1: "x1 \<in> set (run (Str (js ''contain'')) ([], s))"
    and r1: "st \<in> set (run (Seq ?opt ?tail) x1)"
    unfolding run_Seq_mem [of st "Str (js ''contain'')"] by blast
  from r1 obtain x2 where x2: "x2 \<in> set (run ?opt x1)" and x3: "st \<in> set (run ?tail x2)"
    unfolding run_Seq_mem [of st ?opt] by blast
  have e1: "x1 = ([], snd x1)" using h [OF x1] by (cases x1) simp
  have e2: "x2 = ([], snd x2)" using o [of x2 "snd x1"] x2 e1 by (cases x2) simp
  have "st \<in> set (run ?tail ([], snd x2))" using x3 e2 by simp
  then show ?thesis by (rule t)
qed

lemma contains_capture:
  "match_rx containsRx s = Some cm \<Longrightarrow> \<exists>c. isLowerLetter c \<and> group cm 1 = Some [c]"
proof -
  assume "match_rx containsRx s = Some cm"
  then obtain s' st where "st \<in> set (run containsRx ([], s'))" and "fst st = cm"
    using match_rx_run by blast
  then show ?thesis using run_contains_capture [of st s'] by (auto simp: group_def)
qed

section \<open>Properties of the query layer\<close>

lemma example_lengths:
  "map (\<lambda>e. length_f (properties (snd e))) exampleStore = [3, 5, 7, 10]"
  by (simp add: exampleStore_def exampleRecord_def analyseString_def js_def)

lemma example_valid:
  "validQuery (noQuery\<lparr>q_min_length := Some (js ''5''), q_max_length := Some (js ''9'')\<rparr>)"
  by (simp add: validQuery_def noQuery_def parseInt_5 parseInt_9)

lemma example_invalid: "\<not> validQuery (noQuery\<lparr>q_min_length := Some (js ''abc'')\<rparr>)"
  by (simp add: validQuery_def noQuery_def parseInt_def js_def isSpace_def isRadixDigit_def
        isDigit_def)

text \<open>
  Claim C5: the filters of \<open>GET /strings\<close> combine with AND. When every parameter
  that is present is valid, the response is 200 and its data are exactly the records of the
  store, in their order, that satisfy every filter present: \<open>is_palindrome\<close> equal,
  length at least \<open>min_length\<close>, length at most \<open>max_length\<close>,
  \<open>word_count\<close> equal, \<open>contains_character\<close> a substring of the value. An
  absent key imposes nothing, and an invalid parameter gives 400. For records of lengths
  3, 5, 7 and 10, the filters \<open>min_length = 5\<close> and \<open>max_length = 9\<close> return
  exactly the records of lengths 5 and 7.
\<close>

theorem C5_filters_combine:
  "(validQuery q \<longrightarrow>
      getStrings st q =
        \<lparr> status = 200,
          body = ListBody (filter (survives (requestedFilters q)) (getAllString st))
                   (length (filter (survives (requestedFilters q)) (getAllString st)))
                   (requestedFilters q) \<rparr>)
   \<and> (\<not> validQuery q \<longrightarrow> status (getStrings st q) = 400)
   \<and> survives noFilters r
   \<and> includes_str (value_f r) c = (\<exists>ps ss. value_f r = ps @ c @ ss)
   \<and> (map (\<lambda>e. length_f (properties (snd e))) st = [3, 5, 7, 10] \<longrightarrow>
        getStrings st
          (noQuery\<lparr>q_min_length := Some (js ''5''), q_max_length := Some (js ''9'')\<rparr>)
        = \<lparr> status = 200,
            body = ListBody [snd (st ! 1), snd (st ! 2)] 2
                     (noFilters\<lparr>flt_min_length := Some (Num 5),
                                flt_max_length := Some (Num 9)\<rparr>) \<rparr>)"
proof -
  have "survives noFilters r" by (simp add: survives_def noFilters_def)
  then show ?thesis
    using getStrings_valid [of q st] getStrings_invalid [of q st]
      includes_str_iff [of "value_f r" c] example_query [of st]
    by blast
qed

theorem C5_filters_combine_witness:
  "validQuery (noQuery\<lparr>q_min_length := Some (js ''5''), q_max_length := Some (js ''9'')\<rparr>)
   \<and> map (\<lambda>e. length_f (properties (snd e))) exampleStore = [3, 5, 7, 10]
   \<and> getStrings exampleStore
        (noQuery\<lparr>q_min_length := Some (js ''5''), q_max_length := Some (js ''9'')\<rparr>)
      = \<lparr> status = 200,
          body = ListBody [snd (exampleStore ! 1), snd (exampleStore ! 2)] 2
                   (noFilters\<lparr>flt_min_length := Some (Num 5),
                              flt_max_length := Some (Num 9)\<rparr>) \<rparr>
   \<and> \<not> validQuery (noQuery\<lparr>q_min_length := Some (js ''abc'')\<rparr>)
   \<and> status (getStrings exampleStore (noQuery\<lparr>q_min_length := Some (js ''abc'')\<rparr>)) = 400"
  using example_valid example_lengths example_invalid
    C5_filters_combine [of "noQuery\<lparr>q_min_length := Some (js ''5''),
                                   q_max_length := Some (js ''9'')\<rparr>" exampleStore
                           "snd (exampleStore ! 0)" "js ''a''"]
    C5_filters_combine [of "noQuery\<lparr>q_min_length := Some (js ''abc'')\<rparr>" exampleStore
                           "snd (exampleStore ! 0)" "js ''a''"]
  by (simp only: simp_thms)

lemma palindromic_parsed:
  "parseNaturalLanguageQuery id (js ''palindromic strings'') \<noteq> noFilters"
  by (simp add: parse_palindromic noFilters_def)

text \<open>
  Claim C7: when no pattern of the translator matches a query, as for \<open>xyz\<close>, the
  filter set is empty and the natural-language endpoint answers 400 with the
  unparseable-query error. A query that was parsed is answered with 200 and the records
  that satisfy its filters, also when there are none: then the data list is empty.
\<close>

theorem C7_unparseable_query:
  "(noPatternMatches (toLowerCase unicodeLower q) \<longrightarrow>
      parseNaturalLanguageQuery unicodeLower q = noFilters)
   \<and> (q \<noteq> [] \<and> parseNaturalLanguageQuery unicodeLower q = noFilters \<longrightarrow>
        filterByNaturalLanguage unicodeLower st (Some q)
        = \<lparr> status = 400,
            body = ParseErrorBody ''Unable to parse natural language query'' q \<rparr>)
   \<and> noPatternMatches (toLowerCase unicodeLower (js ''xyz''))
   \<and> filterByNaturalLanguage unicodeLower st (Some (js ''xyz''))
        = \<lparr> status = 400,
            body = ParseErrorBody ''Unable to parse natural language query'' (js ''xyz'') \<rparr>
   \<and> (parseNaturalLanguageQuery unicodeLower q \<noteq> noFilters \<longrightarrow>
        filterByNaturalLanguage unicodeLower st (Some q)
        = \<lparr> status = 200,
            body = InterpretedBody
              (filter (survives (parseNaturalLanguageQuery unicodeLower q)) (getAllString st))
              (length (filter (survives (parseNaturalLanguageQuery unicodeLower q))
                 (getAllString st)))
              q (parseNaturalLanguageQuery unicodeLower q) \<rparr>)
   \<and> (parseNaturalLanguageQuery unicodeLower q \<noteq> noFilters
        \<and> filter (survives (parseNaturalLanguageQuery unicodeLower q)) (getAllString st) = []
        \<longrightarrow> filterByNaturalLanguage unicodeLower st (Some q)
        = \<lparr> status = 200,
            body = InterpretedBody [] 0 q (parseNaturalLanguageQuery unicodeLower q) \<rparr>)"
proof -
  have x: "noPatternMatches (toLowerCase unicodeLower (js ''xyz''))"
    by (simp only: lower_xyz no_match_xyz)
  have xne: "js ''xyz'' \<noteq> []" by (simp add: js_def)
  have x400: "filterByNaturalLanguage unicodeLower st (Some (js ''xyz''))
        = \<lparr> status = 400,
            body = ParseErrorBody ''Unable to parse natural language query'' (js ''xyz'') \<rparr>"
    using nl_unparseable [OF xne parse_no_match [OF x]] .
  have ne: "parseNaturalLanguageQuery unicodeLower q \<noteq> noFilters \<Longrightarrow> q \<noteq> []"
    using parse_empty [of unicodeLower] by auto
  have p: "parseNaturalLanguageQuery unicodeLower q \<noteq> noFilters \<Longrightarrow>
        filterByNaturalLanguage unicodeLower st (Some q)
        = \<lparr> status = 200,
            body = InterpretedBody
              (filter (survives (parseNaturalLanguageQuery unicodeLower q)) (getAllString st))
              (length (filter (survives (parseNaturalLanguageQuery unicodeLower q))
                 (getAllString st)))
              q (parseNaturalLanguageQuery unicodeLower q) \<rparr>"
    using nl_parsed [OF ne] by blast
  have z: "parseNaturalLanguageQuery unicodeLower q \<noteq> noFilters
        \<and> filter (survives (parseNaturalLanguageQuery unicodeLower q)) (getAllString st) = []
        \<longrightarrow> filterByNaturalLanguage unicodeLower st (Some q)
        = \<lparr> status = 200,
            body = InterpretedBody [] 0 q (parseNaturalLanguageQuery unicodeLower q) \<rparr>"
    using p by simp
  show ?thesis
    using parse_no_match [of unicodeLower q] nl_unparseable [of q unicodeLower st] x x400 p z
    by blast
qed

theorem C7_unparseable_query_witness:
  "noPatternMatches (toLowerCase id (js ''xyz''))
   \<and> parseNaturalLanguageQuery id (js ''xyz'') = noFilters
   \<and> js ''xyz'' \<noteq> []
   \<and> filterByNaturalLanguage id [] (Some (js ''xyz''))
        = \<lparr> status = 400,
            body = ParseErrorBody ''Unable to parse natural language query'' (js ''xyz'') \<rparr>
   \<and> parseNaturalLanguageQuery id (js ''palindromic strings'') \<noteq> noFilters
   \<and> filter (survives (parseNaturalLanguageQuery id (js ''palindromic strings'')))
        (getAllString []) = []
   \<and> filterByNaturalLanguage id [] (Some (js ''palindromic strings''))
        = \<lparr> status = 200,
            body = InterpretedBody [] 0 (js ''palindromic strings'')
                     (parseNaturalLanguageQuery id (js ''palindromic strings'')) \<rparr>"
proof -
  have e: "filter (survives (parseNaturalLanguageQuery id (js ''palindromic strings'')))
        (getAllString []) = []"
    by (simp add: getAllString_def)
  have xne: "js ''xyz'' \<noteq> []" by (simp add: js_def)
  show ?thesis
    using e xne palindromic_parsed
      C7_unparseable_query [of id "js ''xyz''" "[]"]
      C7_unparseable_query [of id "js ''palindromic strings''" "[]"]
    by blast
qed

lemma lower_letter_only:
  "toLowerCase u (js ''with the letter a'') = js ''with the letter a''"
  by (simp add: toLowerCase_def js_def isAscii_def asciiLower_def)

lemma letter_only_matches:
  "match_rx letterRx (js ''with the letter a'') = Some [(2, js ''a'')]"
  "match_rx containsRx (js ''with the letter a'') = None"
  by (simp_all add: js_def letterRx_def containsRx_def isSpace_def isLowerLetter_def)

lemma no_vowel_examples:
  "noVowelPhrase (js ''with the letter a'')"
  "noVowelPhrase (js ''with the letter a contains b'')"
  by (simp_all add: noVowelPhrase_def vowelWords_def js_def)

text \<open>
  Claim C2, as the specification states it, says that the letter captured by rule 7 is the
  one in the result whenever rules 7 and 8 both match. On the query
  \<open>with the letter a contains b\<close> rule 7 captures \<open>a\<close>, rule 8 captures
  \<open>b\<close>, and the result holds \<open>b\<close>.
\<close>

theorem C2_letter_rules_counterexample:
  "match_rx letterRx (toLowerCase id (js ''with the letter a contains b''))
     = Some [(2, js ''a'')]
   \<and> match_rx containsRx (toLowerCase id (js ''with the letter a contains b''))
     = Some [(1, js ''b'')]
   \<and> flt_contains_character
        (parseNaturalLanguageQuery id (js ''with the letter a contains b''))
     = Some (js ''b'')
   \<and> flt_contains_character
        (parseNaturalLanguageQuery id (js ''with the letter a contains b''))
     \<noteq> orElse (group [(2, js ''a'')] 1) (group [(2, js ''a'')] 2)"
proof -
  have l: "match_rx letterRx (toLowerCase id (js ''with the letter a contains b''))
     = Some [(2, js ''a'')]"
    by (simp only: lower_letter_query match_letter_query)
  have c: "match_rx containsRx (toLowerCase id (js ''with the letter a contains b''))
     = Some [(1, js ''b'')]"
    by (simp only: lower_letter_query match_contains_query)
  have p: "flt_contains_character
        (parseNaturalLanguageQuery id (js ''with the letter a contains b''))
     = Some (js ''b'')"
    by (simp add: parse_letter_query noFilters_def)
  have n: "flt_contains_character
        (parseNaturalLanguageQuery id (js ''with the letter a contains b''))
     \<noteq> orElse (group [(2, js ''a'')] 1) (group [(2, js ''a'')] 2)"
    unfolding p by (simp add: group_def orElse_def js_def)
  show ?thesis using l c p n by (simp only: simp_thms)
qed

text \<open>
  Claim C2, amended: rule 8 is applied whenever its pattern matches, whether or not rule 7
  matched before it. For every query without an ordinal-vowel phrase, when rule 8 matches,
  the single letter it captures is the \<open>contains_character\<close> of the result; the
  letter captured by rule 7 is the result only when rule 8 does not match.
\<close>

theorem C2_later_rule_wins:
  "(noVowelPhrase (toLowerCase unicodeLower q)
      \<and> match_rx containsRx (toLowerCase unicodeLower q) = Some containsMatch
    \<longrightarrow> flt_contains_character (parseNaturalLanguageQuery unicodeLower q)
          = group containsMatch 1
        \<and> (\<exists>c. isLowerLetter c \<and> group containsMatch 1 = Some [c]))
   \<and> (noVowelPhrase (toLowerCase unicodeLower q)
      \<and> match_rx containsRx (toLowerCase unicodeLower q) = None
      \<and> match_rx letterRx (toLowerCase unicodeLower q) = Some letterMatch
    \<longrightarrow> flt_contains_character (parseNaturalLanguageQuery unicodeLower q)
          = orElse (group letterMatch 1) (group letterMatch 2))"
  using contains_rule8 [of unicodeLower q containsMatch]
    contains_capture [of "toLowerCase unicodeLower q" containsMatch]
    contains_rule7 [of unicodeLower q letterMatch]
  by blast

theorem C2_later_rule_wins_witness:
  "noVowelPhrase (toLowerCase id (js ''with the letter a contains b''))
   \<and> match_rx letterRx (toLowerCase id (js ''with the letter a contains b''))
       = Some [(2, js ''a'')]
   \<and> match_rx containsRx (toLowerCase id (js ''with the letter a contains b''))
       = Some [(1, js ''b'')]
   \<and> flt_contains_character
        (parseNaturalLanguageQuery id (js ''with the letter a contains b''))
       = group [(1, js ''b'')] 1
   \<and> noVowelPhrase (toLowerCase id (js ''with the letter a''))
   \<and> match_rx containsRx (toLowerCase id (js ''with the letter a'')) = None
   \<and> match_rx letterRx (toLowerCase id (js ''with the letter a'')) = Some [(2, js ''a'')]
   \<and> flt_contains_character (parseNaturalLanguageQuery id (js ''with the letter a''))
       = orElse (group [(2, js ''a'')] 1) (group [(2, js ''a'')] 2)"
proof -
  have a: "noVowelPhrase (toLowerCase id (js ''with the letter a contains b''))"
    "match_rx letterRx (toLowerCase id (js ''with the letter a contains b''))
       = Some [(2, js ''a'')]"
    "match_rx containsRx (toLowerCase id (js ''with the letter a contains b''))
       = Some [(1, js ''b'')]"
    by (simp_all only: lower_letter_query no_vowel_examples match_letter_query
          match_contains_query)
  have b: "noVowelPhrase (toLowerCase id (js ''with the letter a''))"
    "match_rx containsRx (toLowerCase id (js ''with the letter a'')) = None"
    "match_rx letterRx (toLowerCase id (js ''with the letter a'')) = Some [(2, js ''a'')]"
    by (simp_all only: lower_letter_only no_vowel_examples letter_only_matches)
  show ?thesis
    using a b
      C2_later_rule_wins [of id "js ''with the letter a contains b''" "[(1, js ''b'')]"
                             "[(2, js ''a'')]"]
      C2_later_rule_wins [of id "js ''with the letter a''" "[(1, js ''b'')]" "[(2, js ''a'')]"]
    by (simp only: simp_thms)
qed

lemma decimal_10: "decimal 10 = js ''10''"
  by (simp add: decimal.simps [of 10] decimal.simps [of "Suc 0"] js_def)

lemma lower_examples:
  "toLowerCase u (js ''strings longer than 10 characters'')
    = js ''strings longer than 10 characters''"
  "toLowerCase u (js ''strings shorter than 10 characters'')
    = js ''strings shorter than 10 characters''"
  by (simp_all add: toLowerCase_def js_def isAscii_def asciiLower_def)

lemma length_example_matches:
  "match_rx longerThanRx (js ''strings longer than 10 characters'') = Some [(1, js ''10'')]"
  "match_rx atLeastRx (js ''strings longer than 10 characters'') = None"
  "match_rx shorterThanRx (js ''strings shorter than 10 characters'') = Some [(1, js ''10'')]"
  by (simp_all add: js_def longerThanRx_def atLeastRx_def shorterThanRx_def isDigit_def)

lemma at_least_rule:
  assumes "match_rx atLeastRx (toLowerCase u q) = Some m"
    and "group m 1 = Some (decimal n)" and "n < 2 ^ 53"
  shows "flt_min_length (parseNaturalLanguageQuery u q) = Some (Num (int n))"
  unfolding parseNaturalLanguageQuery_def Let_def pattern9_min pattern78_min
  using assms by (simp add: pattern6_def parseIntArg_def parseInt_decimal)

lemma lower_overridden:
  "toLowerCase u (js ''at least 5 characters longer than 10'')
    = js ''at least 5 characters longer than 10''"
  "toLowerCase u (js ''longer than 3 and longer than 10'')
    = js ''longer than 3 and longer than 10''"
  "toLowerCase u (js ''at least 5 characters'') = js ''at least 5 characters''"
  by (simp_all add: toLowerCase_def js_def isAscii_def asciiLower_def)

lemma overridden_matches:
  "match_rx longerThanRx (js ''at least 5 characters longer than 10'') = Some [(1, js ''10'')]"
  "match_rx atLeastRx (js ''at least 5 characters longer than 10'') = Some [(1, js ''5'')]"
  "match_rx longerThanRx (js ''longer than 3 and longer than 10'') = Some [(1, js ''3'')]"
  "match_rx atLeastRx (js ''at least 5 characters'') = Some [(1, js ''5'')]"
  by (simp_all add: js_def longerThanRx_def atLeastRx_def isDigit_def)

lemma parse_overridden:
  "parseNaturalLanguageQuery u (js ''at least 5 characters longer than 10'')
   = noFilters\<lparr>flt_min_length := Some (Num 5)\<rparr>"
  by (simp add: translator_eval)

lemma parse_leftmost:
  "parseNaturalLanguageQuery u (js ''longer than 3 and longer than 10'')
   = noFilters\<lparr>flt_min_length := Some (Num 4)\<rparr>"
  by (simp add: translator_eval)

lemma includes_longer_10:
  "includes_str (js ''at least 5 characters longer than 10'') (js ''longer than 10'')"
  "includes_str (js ''longer than 3 and longer than 10'') (js ''longer than 10'')"
  by (simp_all add: js_def)

lemma decimal_5: "decimal 5 = js ''5''"
  by (simp add: decimal.simps [of 5] js_def)

text \<open>
  Claim C6, as the specification states it, holds for every non-negative integer and every
  query with the pattern in it. Three queries show where the code differs. For
  \<open>N = 2^53 = 9007199254740992\<close> the number \<open>N + 1\<close> is not a JavaScript
  number, the sum rounds back to \<open>N\<close>, and \<open>longer than N\<close> gives
  \<open>min_length = N\<close>. In \<open>at least 5 characters longer than 10\<close> pattern 6
  assigns after pattern 4 and \<open>min_length\<close> is 5. In
  \<open>longer than 3 and longer than 10\<close> the leftmost match is taken and
  \<open>min_length\<close> is 4.
\<close>

theorem C6_length_patterns_counterexample:
  "flt_min_length (parseNaturalLanguageQuery id (js ''longer than 9007199254740992''))
     = Some (Num 9007199254740992)
   \<and> flt_min_length (parseNaturalLanguageQuery id (js ''longer than 9007199254740992''))
     \<noteq> Some (Num (9007199254740992 + 1))
   \<and> includes_str (toLowerCase id (js ''at least 5 characters longer than 10''))
        (js ''longer than 10'')
   \<and> flt_min_length
        (parseNaturalLanguageQuery id (js ''at least 5 characters longer than 10''))
     = Some (Num 5)
   \<and> includes_str (toLowerCase id (js ''longer than 3 and longer than 10''))
        (js ''longer than 10'')
   \<and> flt_min_length (parseNaturalLanguageQuery id (js ''longer than 3 and longer than 10''))
     = Some (Num 4)"
proof -
  have a: "includes_str (toLowerCase id (js ''at least 5 characters longer than 10''))
        (js ''longer than 10'')"
    "includes_str (toLowerCase id (js ''longer than 3 and longer than 10''))
        (js ''longer than 10'')"
    by (simp_all only: lower_overridden includes_longer_10)
  have b: "flt_min_length (parseNaturalLanguageQuery id (js ''longer than 9007199254740992''))
     = Some (Num 9007199254740992)"
    "flt_min_length (parseNaturalLanguageQuery id (js ''longer than 9007199254740992''))
     \<noteq> Some (Num (9007199254740992 + 1))"
    "flt_min_length
        (parseNaturalLanguageQuery id (js ''at least 5 characters longer than 10''))
     = Some (Num 5)"
    "flt_min_length (parseNaturalLanguageQuery id (js ''longer than 3 and longer than 10''))
     = Some (Num 4)"
    by (simp_all add: parse_longer_2_53 parse_overridden parse_leftmost noFilters_def)
  show ?thesis using a b by (simp only: simp_thms)
qed

text \<open>
  Claim C6, amended: for every non-negative integer \<open>N\<close> below \<open>2^53\<close> and
  every query, when the leftmost match of pattern 4 (\<open>longer than N\<close> or
  \<open>more than N character\<close>) captures the decimal numeral of \<open>N\<close> and
  pattern 6 (\<open>at least M character\<close>) does not match, \<open>min_length\<close> is
  \<open>N + 1\<close>; when pattern 6 matches and captures the numeral of \<open>N\<close>,
  \<open>min_length\<close> is \<open>N\<close>; when the leftmost match of pattern 5
  (\<open>shorter than N\<close> or \<open>less than N character\<close>) captures the numeral of
  \<open>N\<close>, \<open>max_length\<close> is \<open>N - 1\<close>. The queries that consist of
  \<open>longer than N\<close>, \<open>more than N character\<close> or
  \<open>more than N characters\<close> alone give \<open>min_length = N + 1\<close> and nothing
  else, those of \<open>shorter than N\<close>, \<open>less than N character\<close> or
  \<open>less than N characters\<close> alone give \<open>max_length = N - 1\<close> and nothing
  else, and \<open>strings longer than 10 characters\<close> gives \<open>min_length = 11\<close>
  only.
\<close>

theorem C6_length_patterns:
  assumes "n < 2 ^ 53"
  shows "parseNaturalLanguageQuery unicodeLower (js ''longer than '' @ decimal n)
       = noFilters\<lparr>flt_min_length := Some (Num (int n + 1))\<rparr>
     \<and> parseNaturalLanguageQuery unicodeLower
         (js ''more than '' @ decimal n @ js '' character'')
       = noFilters\<lparr>flt_min_length := Some (Num (int n + 1))\<rparr>
     \<and> parseNaturalLanguageQuery unicodeLower
         (js ''more than '' @ decimal n @ js '' characters'')
       = noFilters\<lparr>flt_min_length := Some (Num (int n + 1))\<rparr>
     \<and> parseNaturalLanguageQuery unicodeLower (js ''shorter than '' @ decimal n)
       = noFilters\<lparr>flt_max_length := Some (Num (int n - 1))\<rparr>
     \<and> parseNaturalLanguageQuery unicodeLower
         (js ''less than '' @ decimal n @ js '' character'')
       = noFilters\<lparr>flt_max_length := Some (Num (int n - 1))\<rparr>
     \<and> parseNaturalLanguageQuery unicodeLower
         (js ''less than '' @ decimal n @ js '' characters'')
       = noFilters\<lparr>flt_max_length := Some (Num (int n - 1))\<rparr>
     \<and> parseNaturalLanguageQuery unicodeLower (js ''strings longer than 10 characters'')
       = noFilters\<lparr>flt_min_length := Some (Num 11)\<rparr>
     \<and> (match_rx longerThanRx (toLowerCase unicodeLower q) = Some longerThanMatch
        \<and> orElse (group longerThanMatch 1) (group longerThanMatch 2) = Some (decimal n)
        \<and> match_rx atLeastRx (toLowerCase unicodeLower q) = None
        \<longrightarrow> flt_min_length (parseNaturalLanguageQuery unicodeLower q)
            = Some (Num (int n + 1)))
     \<and> (match_rx atLeastRx (toLowerCase unicodeLower q) = Some atLeastMatch
        \<and> group atLeastMatch 1 = Some (decimal n)
        \<longrightarrow> flt_min_length (parseNaturalLanguageQuery unicodeLower q) = Some (Num (int n)))
     \<and> (match_rx shorterThanRx (toLowerCase unicodeLower q) = Some shorterThanMatch
        \<and> orElse (group shorterThanMatch 1) (group shorterThanMatch 2) = Some (decimal n)
        \<longrightarrow> flt_max_length (parseNaturalLanguageQuery unicodeLower q)
            = Some (Num (int n - 1)))"
  using longer_than_phrase [OF assms, of unicodeLower]
    more_than_character_phrase [OF assms, of unicodeLower]
    more_than_characters_phrase [OF assms, of unicodeLower]
    shorter_than_phrase [OF assms, of unicodeLower]
    less_than_character_phrase [OF assms, of unicodeLower]
    less_than_characters_phrase [OF assms, of unicodeLower]
    parse_longer_10 [of unicodeLower]
    min_length_rule [of unicodeLower q longerThanMatch n, OF _ _ _ assms]
    at_least_rule [of unicodeLower q atLeastMatch n, OF _ _ assms]
    max_length_rule [of unicodeLower q shorterThanMatch n, OF _ _ assms]
  by blast

theorem C6_length_patterns_witness:
  "(10::nat) < 2 ^ 53
   \<and> parseNaturalLanguageQuery id (js ''longer than '' @ decimal 10)
       = noFilters\<lparr>flt_min_length := Some (Num (int 10 + 1))\<rparr>
   \<and> match_rx longerThanRx (toLowerCase id (js ''strings longer than 10 characters''))
       = Some [(1, js ''10'')]
   \<and> orElse (group [(1, js ''10'')] 1) (group [(1, js ''10'')] 2) = Some (decimal 10)
   \<and> match_rx atLeastRx (toLowerCase id (js ''strings longer than 10 characters'')) = None
   \<and> flt_min_length (parseNaturalLanguageQuery id (js ''strings longer than 10 characters''))
       = Some (Num (int 10 + 1))
   \<and> match_rx shorterThanRx (toLowerCase id (js ''strings shorter than 10 characters''))
       = Some [(1, js ''10'')]
   \<and> flt_max_length (parseNaturalLanguageQuery id (js ''strings shorter than 10 characters''))
       = Some (Num (int 10 - 1))
   \<and> (5::nat) < 2 ^ 53
   \<and> match_rx atLeastRx (toLowerCase id (js ''at least 5 characters longer than 10''))
       = Some [(1, js ''5'')]
   \<and> group [(1, js ''5'')] 1 = Some (decimal 5)
   \<and> flt_min_length
        (parseNaturalLanguageQuery id (js ''at least 5 characters longer than 10''))
       = Some (Num (int 5))"
proof -
  have h: "(10::nat) < 2 ^ 53" by simp
  have h5: "(5::nat) < 2 ^ 53" by simp
  have a: "match_rx longerThanRx (toLowerCase id (js ''strings longer than 10 characters''))
       = Some [(1, js ''10'')]"
    "match_rx atLeastRx (toLowerCase id (js ''strings longer than 10 characters'')) = None"
    "match_rx shorterThanRx (toLowerCase id (js ''strings shorter than 10 characters''))
       = Some [(1, js ''10'')]"
    by (simp_all only: lower_examples length_example_matches)
  have b: "match_rx atLeastRx (toLowerCase id (js ''at least 5 characters longer than 10''))
       = Some [(1, js ''5'')]"
    by (simp only: lower_overridden overridden_matches)
  have g: "orElse (group [(1, js ''10'')] 1) (group [(1, js ''10'')] 2) = Some (decimal 10)"
    by (simp add: decimal_10 group_def orElse_def js_def)
  have g5: "group [(1, js ''5'')] 1 = Some (decimal 5)"
    by (simp add: decimal_5 group_def)
  show ?thesis
    using h h5 a b g g5
      C6_length_patterns [OF h, where unicodeLower = id
         and q = "js ''strings longer than 10 characters''"
         and longerThanMatch = "[(1, js ''10'')]" and shorterThanMatch = "[(1, js ''10'')]"
         and atLeastMatch = "[(1, js ''5'')]"]
      C6_length_patterns [OF h, where unicodeLower = id
         and q = "js ''strings shorter than 10 characters''"
         and longerThanMatch = "[(1, js ''10'')]" and shorterThanMatch = "[(1, js ''10'')]"
         and atLeastMatch = "[(1, js ''5'')]"]
      C6_length_patterns [OF h5, where unicodeLower = id
         and q = "js ''at least 5 characters longer than 10''"
         and longerThanMatch = "[(1, js ''10'')]" and shorterThanMatch = "[(1, js ''10'')]"
         and atLeastMatch = "[(1, js ''5'')]"]
    by (simp only: simp_thms)
qed

end
